theory Spec2Isabelle
  imports Complex_Main "HOL-Library.Word"
begin

unbundle bit_operations_syntax

section \<open>Python values\<close>

text \<open>
  A Python \<open>str\<close> is a sequence of Unicode code points, so it is a list of naturals
  (each below \<open>0x110000\<close>); \<open>bytes\<close> is a list of 8-bit words. Program constants
  are written as ASCII literals and converted with \<open>ascii\<close>.
\<close>

type_synonym pystr = "nat list"
type_synonym byte = "8 word"

definition ascii :: "string \<Rightarrow> pystr" where
  "ascii s = map of_char s"

text \<open>
  JSON values, as \<open>json.loads\<close> and the output parser build them: a Python
  \<open>dict\<close> with \<open>str\<close> keys is an association list read with \<open>map_of\<close>.
  A Python \<open>float\<close> is a real number here (no rounding, no NaN).
\<close>

datatype json
  = JNull
  | JBool bool
  | JNum real
  | JStr pystr
  | JArr "json list"
  | JObj "(pystr \<times> json) list"

text \<open>Python's truth value of an object, as \<^verbatim>\<open>if data:\<close> tests it.\<close>

fun truthy :: "json \<Rightarrow> bool" where
  "truthy JNull = False"
| "truthy (JBool b) = b"
| "truthy (JNum x) = (x \<noteq> 0)"
| "truthy (JStr s) = (s \<noteq> [])"
| "truthy (JArr xs) = (xs \<noteq> [])"
| "truthy (JObj d) = (d \<noteq> [])"

text \<open>
  The exceptions that the modelled code raises, catches or lets through. A validation
  error carries the list of its errors (\<open>exc.errors()\<close>); the analysis error of
  exceptions.py carries its message and its \<open>details\<close> dictionary.
\<close>

datatype verror
  = Missing string
  | ModelType string
  | EnumError
  | FloatType
  | GreaterThanEqual
  | LessThanEqual
  | StringType string
  | StringUnicode string
  | StringTooShort string
  | StringTooLong string

datatype detail = ValidationErrors "verror list" | ErrorText string

datatype exn
  = UnicodeEncodeError
  | OutputParserException
  | TimeoutError string
  | ValidationError "verror list"
  | SentimentAnalysisError string "(string \<times> detail) list"
  | TypeError
  | OtherException string

text \<open>\<open>str(exc)\<close>\<close>

fun exn_str :: "exn \<Rightarrow> string" where
  "exn_str UnicodeEncodeError = ''surrogates not allowed''"
| "exn_str OutputParserException = ''Invalid json output''"
| "exn_str (TimeoutError m) = m"
| "exn_str (ValidationError errs) = ''validation error''"
| "exn_str (SentimentAnalysisError m d) = m"
| "exn_str TypeError = ''type error''"
| "exn_str (OtherException m) = m"

section \<open>Key derivation: \<open>generate_cache_key\<close> (main.py)\<close>

subsection \<open>\<open>str.encode('utf-8')\<close>\<close>

text \<open>
  The strict UTF-8 encoder: one to four bytes per code point, and
  \<open>UnicodeEncodeError\<close> at a surrogate code point (\<open>0xD800\<close> to \<open>0xDFFF\<close>).
  A Python \<open>str\<close> holds no code point from \<open>0x110000\<close> on; the model gives
  the error there too.
\<close>

definition utf8_char :: "nat \<Rightarrow> exn + byte list" where
  "utf8_char c =
     (if c < 0x80 then Inr [of_nat c]
      else if c < 0x800 then Inr [of_nat (0xC0 + c div 64), of_nat (0x80 + c mod 64)]
      else if c < 0x10000 then
        (if 0xD800 \<le> c \<and> c \<le> 0xDFFF then Inl UnicodeEncodeError
         else Inr [of_nat (0xE0 + c div 4096), of_nat (0x80 + (c div 64) mod 64),
                   of_nat (0x80 + c mod 64)])
      else if c < 0x110000 then
        Inr [of_nat (0xF0 + c div 262144), of_nat (0x80 + (c div 4096) mod 64),
             of_nat (0x80 + (c div 64) mod 64), of_nat (0x80 + c mod 64)]
      else Inl UnicodeEncodeError)"

fun encode_utf8 :: "pystr \<Rightarrow> exn + byte list" where
  "encode_utf8 [] = Inr []"
| "encode_utf8 (c # cs) =
     (case utf8_char c of
        Inl e \<Rightarrow> Inl e
      | Inr bs \<Rightarrow> (case encode_utf8 cs of Inl e \<Rightarrow> Inl e | Inr rest \<Rightarrow> Inr (bs @ rest)))"

text \<open>The texts that encode: sequences of Unicode scalar values.\<close>

definition scalar_value :: "nat \<Rightarrow> bool" where
  "scalar_value c \<longleftrightarrow> c < 0x110000 \<and> \<not> (0xD800 \<le> c \<and> c \<le> 0xDFFF)"

subsection \<open>\<open>hashlib.md5\<close> (RFC 1321)\<close>

text \<open>
  The 32-bit words of MD5 are naturals below \<open>2 ^ 32\<close>, with the wrap-around
  of addition and rotation written out.
\<close>

definition md5_s :: "nat list" where
  "md5_s =
    [7, 12, 17, 22, 7, 12, 17, 22, 7, 12, 17, 22, 7, 12, 17, 22,
     5, 9, 14, 20, 5, 9, 14, 20, 5, 9, 14, 20, 5, 9, 14, 20,
     4, 11, 16, 23, 4, 11, 16, 23, 4, 11, 16, 23, 4, 11, 16, 23,
     6, 10, 15, 21, 6, 10, 15, 21, 6, 10, 15, 21, 6, 10, 15, 21]"

definition md5_K :: "nat list" where
  "md5_K =
    [0xd76aa478, 0xe8c7b756, 0x242070db, 0xc1bdceee, 0xf57c0faf, 0x4787c62a, 0xa8304613, 0xfd469501,
     0x698098d8, 0x8b44f7af, 0xffff5bb1, 0x895cd7be, 0x6b901122, 0xfd987193, 0xa679438e, 0x49b40821,
     0xf61e2562, 0xc040b340, 0x265e5a51, 0xe9b6c7aa, 0xd62f105d, 0x02441453, 0xd8a1e681, 0xe7d3fbc8,
     0x21e1cde6, 0xc33707d6, 0xf4d50d87, 0x455a14ed, 0xa9e3e905, 0xfcefa3f8, 0x676f02d9, 0x8d2a4c8a,
     0xfffa3942, 0x8771f681, 0x6d9d6122, 0xfde5380c, 0xa4beea44, 0x4bdecfa9, 0xf6bb4b60, 0xbebfbc70,
     0x289b7ec6, 0xeaa127fa, 0xd4ef3085, 0x04881d05, 0xd9d4d039, 0xe6db99e5, 0x1fa27cf8, 0xc4ac5665,
     0xf4292244, 0x432aff97, 0xab9423a7, 0xfc93a039, 0x655b59c3, 0x8f0ccc92, 0xffeff47d, 0x85845dd1,
     0x6fa87e4f, 0xfe2ce6e0, 0xa3014314, 0x4e0811a1, 0xf7537e82, 0xbd3af235, 0x2ad7d2bb, 0xeb86d391]"

definition add32 :: "nat \<Rightarrow> nat \<Rightarrow> nat" where
  "add32 x y = (x + y) mod 2 ^ 32"

definition not32 :: "nat \<Rightarrow> nat" where
  "not32 x = x XOR 0xFFFFFFFF"

definition leftrotate :: "nat \<Rightarrow> nat \<Rightarrow> nat" where
  "leftrotate x c = (x * 2 ^ c) mod 2 ^ 32 + x div 2 ^ (32 - c)"

text \<open>Little-endian bytes of a number, and the word of four little-endian bytes.\<close>

fun le_bytes :: "nat \<Rightarrow> nat \<Rightarrow> byte list" where
  "le_bytes 0 v = []"
| "le_bytes (Suc n) v = of_nat (v mod 256) # le_bytes n (v div 256)"

fun le_word :: "byte list \<Rightarrow> nat" where
  "le_word [] = 0"
| "le_word (b # bs) = unat b + 256 * le_word bs"

fun blocks :: "nat \<Rightarrow> nat \<Rightarrow> 'a list \<Rightarrow> 'a list list" where
  "blocks k 0 xs = []"
| "blocks k (Suc n) xs = take k xs # blocks k n (drop k xs)"

text \<open>
  Padding: the byte \<open>0x80\<close>, zero bytes up to 56 modulo 64, and the length of the
  message in bits as 64 bits, little-endian.
\<close>

definition md5_pad :: "byte list \<Rightarrow> byte list" where
  "md5_pad bs =
     bs @ [0x80] @ replicate ((119 - length bs mod 64) mod 64) 0
        @ le_bytes 8 ((8 * length bs) mod 2 ^ 64)"

type_synonym md5_state = "nat \<times> nat \<times> nat \<times> nat"

definition md5_f :: "nat \<Rightarrow> nat \<Rightarrow> nat \<Rightarrow> nat \<Rightarrow> nat" where
  "md5_f i b c d =
     (if i < 16 then (b AND c) OR (not32 b AND d)
      else if i < 32 then (d AND b) OR (not32 d AND c)
      else if i < 48 then b XOR c XOR d
      else c XOR (b OR not32 d))"

definition md5_g :: "nat \<Rightarrow> nat" where
  "md5_g i =
     (if i < 16 then i
      else if i < 32 then (5 * i + 1) mod 16
      else if i < 48 then (3 * i + 5) mod 16
      else (7 * i) mod 16)"

fun md5_step :: "nat list \<Rightarrow> md5_state \<Rightarrow> nat \<Rightarrow> md5_state" where
  "md5_step M (a, b, c, d) i =
     (d,
      add32 b (leftrotate
                 (add32 (add32 (add32 (md5_f i b c d) a) (md5_K ! i)) (M ! md5_g i))
                 (md5_s ! i)),
      b, c)"

fun md5_chunk :: "md5_state \<Rightarrow> byte list \<Rightarrow> md5_state" where
  "md5_chunk (a0, b0, c0, d0) chunk =
     (case foldl (md5_step (map le_word (blocks 4 16 chunk))) (a0, b0, c0, d0) [0..<64] of
        (a, b, c, d) \<Rightarrow> (add32 a0 a, add32 b0 b, add32 c0 c, add32 d0 d))"

definition md5_init :: md5_state where
  "md5_init = (0x67452301, 0xefcdab89, 0x98badcfe, 0x10325476)"

definition md5 :: "byte list \<Rightarrow> byte list" where
  "md5 bs =
     (case foldl md5_chunk md5_init (blocks 64 (length (md5_pad bs) div 64) (md5_pad bs)) of
        (a, b, c, d) \<Rightarrow> concat (map (le_bytes 4) [a, b, c, d]))"

subsection \<open>\<open>hexdigest\<close> and the key\<close>

definition hex_digit :: "nat \<Rightarrow> char" where
  "hex_digit n = ''0123456789abcdef'' ! (n mod 16)"

definition hex_byte :: "byte \<Rightarrow> string" where
  "hex_byte b = [hex_digit (unat b div 16), hex_digit (unat b mod 16)]"

definition hexdigest :: "byte list \<Rightarrow> string" where
  "hexdigest bs = concat (map hex_byte bs)"

text \<open>
  \<^verbatim>\<open>return hashlib.md5(text.encode('utf-8')).hexdigest()\<close>
\<close>

definition generate_cache_key :: "pystr \<Rightarrow> exn + string" where
  "generate_cache_key txt =
     (case encode_utf8 txt of
        Inl e \<Rightarrow> Inl e
      | Inr bs \<Rightarrow> Inr (hexdigest (md5 bs)))"

section \<open>The data model (models.py)\<close>

datatype SentimentLabel = POSITIVE | NEGATIVE | NEUTRAL | MIXED

fun label_value :: "SentimentLabel \<Rightarrow> pystr" where
  "label_value POSITIVE = ascii ''positive''"
| "label_value NEGATIVE = ascii ''negative''"
| "label_value NEUTRAL = ascii ''neutral''"
| "label_value MIXED = ascii ''mixed''"

record SentimentResult =
  label :: SentimentLabel
  confidence :: real
  explanation :: "pystr option"

text \<open>The field \<open>text\<close> of the response is \<open>text_field\<close> here.\<close>

record AnalysisResponse =
  text_field :: pystr
  sentiment :: SentimentResult
  cached :: bool
  processing_time :: "real option"
  model_used :: "pystr option"
  timestamp :: real

subsection \<open>Validation of the fields\<close>

text \<open>
  The validators follow the field declarations of models.py. An enumeration field takes
  the string that is the value of one of its members. A \<open>float\<close> field takes a JSON
  number; what the validation library's lax mode makes of any other input (a numeric
  string, a boolean) is the parameter \<open>lax\<close>. A \<open>str\<close> field takes a string only.
  The errors of all fields are collected.
\<close>

definition label_of_value :: "pystr \<Rightarrow> SentimentLabel option" where
  "label_of_value s =
     (if s = ascii ''positive'' then Some POSITIVE
      else if s = ascii ''negative'' then Some NEGATIVE
      else if s = ascii ''neutral'' then Some NEUTRAL
      else if s = ascii ''mixed'' then Some MIXED
      else None)"

definition validate_label :: "json option \<Rightarrow> verror list + SentimentLabel" where
  "validate_label v =
     (case v of
        None \<Rightarrow> Inl [Missing ''label'']
      | Some (JStr s) \<Rightarrow> (case label_of_value s of Some l \<Rightarrow> Inr l | None \<Rightarrow> Inl [EnumError])
      | Some _ \<Rightarrow> Inl [EnumError])"

definition to_float :: "(json \<Rightarrow> real option) \<Rightarrow> json \<Rightarrow> real option" where
  "to_float lax j = (case j of JNum x \<Rightarrow> Some x | _ \<Rightarrow> lax j)"

text \<open>\<^verbatim>\<open>confidence: float = Field(..., ge=0.0, le=1.0)\<close>\<close>

definition validate_confidence :: "(json \<Rightarrow> real option) \<Rightarrow> json option \<Rightarrow> verror list + real" where
  "validate_confidence lax v =
     (case v of
        None \<Rightarrow> Inl [Missing ''confidence'']
      | Some j \<Rightarrow>
          (case to_float lax j of
             None \<Rightarrow> Inl [FloatType]
           | Some x \<Rightarrow>
               if \<not> 0 \<le> x then Inl [GreaterThanEqual]
               else if \<not> x \<le> 1 then Inl [LessThanEqual]
               else Inr x))"

text \<open>A field \<^verbatim>\<open>str | None = None\<close>\<close>

definition validate_optional_str :: "string \<Rightarrow> json option \<Rightarrow> verror list + pystr option" where
  "validate_optional_str name v =
     (case v of
        None \<Rightarrow> Inr None
      | Some JNull \<Rightarrow> Inr None
      | Some (JStr s) \<Rightarrow> Inr (Some s)
      | Some _ \<Rightarrow> Inl [StringType name])"

text \<open>A required field \<^verbatim>\<open>str\<close>\<close>

definition validate_str :: "string \<Rightarrow> json option \<Rightarrow> verror list + pystr" where
  "validate_str name v =
     (case v of
        None \<Rightarrow> Inl [Missing name]
      | Some (JStr s) \<Rightarrow> Inr s
      | Some _ \<Rightarrow> Inl [StringType name])"

fun errors_of :: "verror list + 'a \<Rightarrow> verror list" where
  "errors_of (Inl es) = es"
| "errors_of (Inr x) = []"

text \<open>The fields of a \<open>SentimentResult\<close> read from a dictionary.\<close>

definition sentiment_fields ::
  "(json \<Rightarrow> real option) \<Rightarrow> (pystr \<times> json) list \<Rightarrow> verror list + SentimentResult" where
  "sentiment_fields lax d =
     (case (validate_label (map_of d (ascii ''label'')),
            validate_confidence lax (map_of d (ascii ''confidence'')),
            validate_optional_str ''explanation'' (map_of d (ascii ''explanation''))) of
        (Inr l, Inr c, Inr e) \<Rightarrow> Inr \<lparr>label = l, confidence = c, explanation = e\<rparr>
      | (l, c, e) \<Rightarrow> Inl (errors_of l @ errors_of c @ errors_of e))"

definition validate_sentiment ::
  "(json \<Rightarrow> real option) \<Rightarrow> json option \<Rightarrow> verror list + SentimentResult" where
  "validate_sentiment lax v =
     (case v of
        None \<Rightarrow> Inl [Missing ''sentiment'']
      | Some (JObj d) \<Rightarrow> sentiment_fields lax d
      | Some _ \<Rightarrow> Inl [ModelType ''SentimentResult''])"

text \<open>\<open>SentimentResult.model_validate\<close>\<close>

definition model_validate :: "(json \<Rightarrow> real option) \<Rightarrow> json \<Rightarrow> exn + SentimentResult" where
  "model_validate lax j =
     (case validate_sentiment lax (Some j) of
        Inl errs \<Rightarrow> Inl (ValidationError errs)
      | Inr r \<Rightarrow> Inr r)"

text \<open>
  \<open>SentimentResult.model_dump\<close>, as \<open>json.dumps\<close> writes it: the label is a
  string enumeration member and is written as its value.
\<close>

definition model_dump :: "SentimentResult \<Rightarrow> json" where
  "model_dump r =
     JObj [(ascii ''label'', JStr (label_value (label r))),
           (ascii ''confidence'', JNum (confidence r)),
           (ascii ''explanation'', (case explanation r of None \<Rightarrow> JNull | Some s \<Rightarrow> JStr s))]"

text \<open>
  The constructor \<open>AnalysisResponse(**kwargs)\<close>: \<open>text\<close>, \<open>sentiment\<close> and
  \<open>model_used\<close> are validated from the dictionary, keys that name no field are ignored;
  \<open>cached\<close>, \<open>processing_time\<close> and \<open>timestamp\<close> are the values the pipeline
  computes itself.
\<close>

definition new_AnalysisResponse ::
  "(json \<Rightarrow> real option) \<Rightarrow> (pystr \<times> json) list \<Rightarrow> bool \<Rightarrow> real \<Rightarrow> real
     \<Rightarrow> exn + AnalysisResponse" where
  "new_AnalysisResponse lax d c pt ts =
     (case (validate_str ''text'' (map_of d (ascii ''text'')),
            validate_sentiment lax (map_of d (ascii ''sentiment'')),
            validate_optional_str ''model_used'' (map_of d (ascii ''model_used''))) of
        (Inr t, Inr s, Inr m) \<Rightarrow>
          Inr \<lparr>text_field = t, sentiment = s, cached = c, processing_time = Some pt,
               model_used = m, timestamp = ts\<rparr>
      | (t, s, m) \<Rightarrow> Inl (ValidationError (errors_of t @ errors_of s @ errors_of m)))"

subsection \<open>\<open>SentimentAnalysisRequest\<close>\<close>

text \<open>
  \<^verbatim>\<open>text: str = Field(..., min_length=1, max_length=10000)\<close>

  The handler of \<open>POST /analyze\<close> is called with a request that validated, and the
  text of the request is the only text a key is derived from. The validation of a
  \<open>str\<close> field refuses a string that holds a surrogate code point (no such string
  encodes as UTF-8), and then checks the bounds on the number of code points.
\<close>

definition SentimentAnalysisRequest_text :: "pystr \<Rightarrow> verror list + pystr" where
  "SentimentAnalysisRequest_text v =
     (if \<not> list_all scalar_value v then Inl [StringUnicode ''text'']
      else if length v < 1 then Inl [StringTooShort ''text'']
      else if 10000 < length v then Inl [StringTooLong ''text'']
      else Inr v)"

section \<open>The backend client (services.py)\<close>

text \<open>
  The language model and the output parser are outside the repository. One invocation of
  the chain is given by how long it takes and by what it yields: a parsed JSON value or
  an exception (\<open>OutputParserException\<close> when the reply is no JSON).
\<close>

record chain_run =
  duration :: real
  outcome :: "exn + json"

record SentimentAnalysisService =
  ollama_model :: pystr
  request_timeout :: int

text \<open>
  \<open>asyncio.wait_for\<close>: a run longer than the timeout is cancelled and
  \<open>asyncio.TimeoutError\<close> is raised, which is the builtin \<open>TimeoutError\<close>.
\<close>

definition wait_for :: "chain_run \<Rightarrow> int \<Rightarrow> exn + json" where
  "wait_for run timeout =
     (if real_of_int timeout < duration run then Inl (TimeoutError []) else outcome run)"

definition fallback_reply :: json where
  "fallback_reply =
     JObj [(ascii ''label'', JStr (ascii ''neutral'')),
           (ascii ''confidence'', JNum 0),
           (ascii ''explanation'', JStr (ascii ''Unable to determine sentiment''))]"

text \<open>
  The \<open>except\<close> clauses of \<open>analyze_sentiment\<close>, in the order of the source; each
  gives the result and what it writes to the error log.
\<close>

definition handle_exception ::
  "(json \<Rightarrow> real option) \<Rightarrow> exn \<Rightarrow> (exn + SentimentResult) \<times> string list" where
  "handle_exception lax ex =
     (case ex of
        OutputParserException \<Rightarrow> (model_validate lax fallback_reply, [])
      | TimeoutError m \<Rightarrow>
          (Inl (TimeoutError ''Sentiment analysis request timed out''),
           [''Sentiment analysis timeout''])
      | ValidationError errs \<Rightarrow>
          (Inl (SentimentAnalysisError ''Invalid response format from LLM''
                  [(''validation_errors'', ValidationErrors errs)]),
           [''Validation error while parsing LLM output''])
      | _ \<Rightarrow>
          (Inl (SentimentAnalysisError ''Unexpected error during sentiment analysis''
                  [(''error'', ErrorText (exn_str ex))]),
           [''Sentiment analysis failed: '' @ exn_str ex]))"

text \<open>The \<open>try\<close> block: await the chain under the timeout, then validate its result.\<close>

definition analyze_run ::
  "(json \<Rightarrow> real option) \<Rightarrow> SentimentAnalysisService \<Rightarrow> chain_run
     \<Rightarrow> (exn + SentimentResult) \<times> string list" where
  "analyze_run lax service run =
     (case (case wait_for run (request_timeout service) of
              Inl ex \<Rightarrow> Inl ex
            | Inr result \<Rightarrow> model_validate lax result) of
        Inr r \<Rightarrow> (Inr r, [])
      | Inl ex \<Rightarrow> handle_exception lax ex)"

section \<open>The cache store (cache.py)\<close>

subsection \<open>The Redis client\<close>

text \<open>
  A stored string is either the text \<open>json.dumps\<close> writes for a value, which
  \<open>json.loads\<close> reads back, or some other string, on which \<open>json.loads\<close> raises.
  The server keeps for each key its string and its time to live. Every method of the
  client that is called is recorded in \<open>calls\<close>; when \<open>fault\<close> is set, every method
  raises. Time does not pass in the model: an entry stays until it is overwritten,
  deleted or flushed.
\<close>

datatype redis_str = JsonText json | RawText string

datatype redis_cmd
  = GET string
  | SETEX string int redis_str
  | DEL string
  | PING
  | FLUSHDB

record redis_server =
  kv :: "string \<rightharpoonup> redis_str \<times> int"
  fault :: "string option"
  calls :: "redis_cmd list"

definition redis_get :: "string \<Rightarrow> redis_server \<Rightarrow> (exn + redis_str option) \<times> redis_server" where
  "redis_get key r =
     (case fault r of
        Some m \<Rightarrow> (Inl (OtherException m), r\<lparr>calls := calls r @ [GET key]\<rparr>)
      | None \<Rightarrow> (Inr (map_option fst (kv r key)), r\<lparr>calls := calls r @ [GET key]\<rparr>))"

text \<open>The server refuses a time to live that is not positive.\<close>

definition redis_setex ::
  "string \<Rightarrow> int \<Rightarrow> redis_str \<Rightarrow> redis_server \<Rightarrow> (exn + unit) \<times> redis_server" where
  "redis_setex key t v r =
     (case fault r of
        Some m \<Rightarrow> (Inl (OtherException m), r\<lparr>calls := calls r @ [SETEX key t v]\<rparr>)
      | None \<Rightarrow>
          if t \<le> 0
          then (Inl (OtherException ''invalid expire time in setex''),
                r\<lparr>calls := calls r @ [SETEX key t v]\<rparr>)
          else (Inr (), r\<lparr>kv := (kv r)(key \<mapsto> (v, t)), calls := calls r @ [SETEX key t v]\<rparr>))"

definition redis_delete :: "string \<Rightarrow> redis_server \<Rightarrow> (exn + nat) \<times> redis_server" where
  "redis_delete key r =
     (case fault r of
        Some m \<Rightarrow> (Inl (OtherException m), r\<lparr>calls := calls r @ [DEL key]\<rparr>)
      | None \<Rightarrow>
          (Inr (if kv r key = None then 0 else 1),
           r\<lparr>kv := (kv r)(key := None), calls := calls r @ [DEL key]\<rparr>))"

definition redis_ping :: "redis_server \<Rightarrow> (exn + unit) \<times> redis_server" where
  "redis_ping r =
     (case fault r of
        Some m \<Rightarrow> (Inl (OtherException m), r\<lparr>calls := calls r @ [PING]\<rparr>)
      | None \<Rightarrow> (Inr (), r\<lparr>calls := calls r @ [PING]\<rparr>))"

definition redis_flushdb :: "redis_server \<Rightarrow> (exn + unit) \<times> redis_server" where
  "redis_flushdb r =
     (case fault r of
        Some m \<Rightarrow> (Inl (OtherException m), r\<lparr>calls := calls r @ [FLUSHDB]\<rparr>)
      | None \<Rightarrow> (Inr (), r\<lparr>kv := Map.empty, calls := calls r @ [FLUSHDB]\<rparr>))"

definition json_dumps :: "json \<Rightarrow> redis_str" where
  "json_dumps v = JsonText v"

definition json_loads :: "redis_str \<Rightarrow> exn + json" where
  "json_loads s =
     (case s of JsonText j \<Rightarrow> Inr j | RawText x \<Rightarrow> Inl (OtherException ''JSONDecodeError''))"

text \<open>The truth value of a string: the empty string is false.\<close>

definition str_truthy :: "redis_str \<Rightarrow> bool" where
  "str_truthy s = (case s of JsonText j \<Rightarrow> True | RawText x \<Rightarrow> x \<noteq> [])"

subsection \<open>The state of a run\<close>

text \<open>
  What the handlers act on: the Redis server, the texts the chain was invoked with, the
  error log, and the number of clock readings taken. \<open>cache_calls\<close> records the calls
  of \<open>RedisCache.get\<close> and \<open>RedisCache.set\<close>, as the mocks of the tests count them.
  \<open>events\<close> is the order in which things happen: every reading of the clock (with its
  number), every call of \<open>RedisCache.get\<close> and \<open>RedisCache.set\<close> and every
  invocation of the chain appends itself to it when it is made.
\<close>

datatype cache_call = CacheGet string | CacheSet string json

datatype event = Clock nat | Cache cache_call | Backend pystr

record world =
  redis :: redis_server
  cache_calls :: "cache_call list"
  llm_calls :: "pystr list"
  logged :: "string list"
  ticks :: nat
  events :: "event list"

subsection \<open>\<open>RedisCache\<close>\<close>

record RedisCache =
  ttl :: int
  cache_enabled :: bool

definition RedisCache_get :: "RedisCache \<Rightarrow> string \<Rightarrow> world \<Rightarrow> json option \<times> world" where
  "RedisCache_get self key w0 =
     (let w = w0\<lparr>cache_calls := cache_calls w0 @ [CacheGet key],
                  events := events w0 @ [Cache (CacheGet key)]\<rparr> in
      if \<not> cache_enabled self then (None, w)
      else
        (case redis_get key (redis w) of
           (Inl ex, r) \<Rightarrow>
             (None, w\<lparr>redis := r, logged := logged w @ [''Redis get error: '' @ exn_str ex]\<rparr>)
         | (Inr None, r) \<Rightarrow> (None, w\<lparr>redis := r\<rparr>)
         | (Inr (Some data), r) \<Rightarrow>
             if str_truthy data then
               (case json_loads data of
                  Inl ex \<Rightarrow>
                    (None,
                     w\<lparr>redis := r, logged := logged w @ [''Redis get error: '' @ exn_str ex]\<rparr>)
                | Inr j \<Rightarrow> (Some j, w\<lparr>redis := r\<rparr>))
             else (None, w\<lparr>redis := r\<rparr>)))"

text \<open>\<^verbatim>\<open>actual_ttl = ttl or self.ttl\<close>\<close>

definition actual_ttl :: "RedisCache \<Rightarrow> int option \<Rightarrow> int" where
  "actual_ttl self t = (case t of None \<Rightarrow> ttl self | Some n \<Rightarrow> if n \<noteq> 0 then n else ttl self)"

definition RedisCache_set ::
  "RedisCache \<Rightarrow> string \<Rightarrow> json \<Rightarrow> int option \<Rightarrow> world \<Rightarrow> bool \<times> world" where
  "RedisCache_set self key v t w0 =
     (let w = w0\<lparr>cache_calls := cache_calls w0 @ [CacheSet key v],
                  events := events w0 @ [Cache (CacheSet key v)]\<rparr> in
      if \<not> cache_enabled self then (False, w)
      else
        (case redis_setex key (actual_ttl self t) (json_dumps v) (redis w) of
           (Inl ex, r) \<Rightarrow>
             (False, w\<lparr>redis := r, logged := logged w @ [''Redis set error: '' @ exn_str ex]\<rparr>)
         | (Inr u, r) \<Rightarrow> (True, w\<lparr>redis := r\<rparr>)))"

definition RedisCache_delete :: "RedisCache \<Rightarrow> string \<Rightarrow> world \<Rightarrow> bool \<times> world" where
  "RedisCache_delete self key w =
     (case redis_delete key (redis w) of
        (Inl ex, r) \<Rightarrow>
          (False, w\<lparr>redis := r, logged := logged w @ [''Redis delete error: '' @ exn_str ex]\<rparr>)
      | (Inr n, r) \<Rightarrow> (n \<noteq> 0, w\<lparr>redis := r\<rparr>))"

definition RedisCache_health_check :: "RedisCache \<Rightarrow> world \<Rightarrow> bool \<times> world" where
  "RedisCache_health_check self w =
     (case redis_ping (redis w) of
        (Inl ex, r) \<Rightarrow>
          (False,
           w\<lparr>redis := r, logged := logged w @ [''Redis health check failed: '' @ exn_str ex]\<rparr>)
      | (Inr u, r) \<Rightarrow> (True, w\<lparr>redis := r\<rparr>))"

definition RedisCache_clear_cache :: "RedisCache \<Rightarrow> world \<Rightarrow> bool \<times> world" where
  "RedisCache_clear_cache self w =
     (case redis_flushdb (redis w) of
        (Inl ex, r) \<Rightarrow>
          (False, w\<lparr>redis := r, logged := logged w @ [''Cache clear error: '' @ exn_str ex]\<rparr>)
      | (Inr u, r) \<Rightarrow> (True, w\<lparr>redis := r\<rparr>))"

section \<open>The request pipeline (main.py)\<close>

text \<open>
  What the pipeline depends on and does not own: the chain (its \<open>n\<close>-th invocation, on
  a text), the wall clock (its \<open>n\<close>-th reading), the lax float coercion of the
  validation library, and \<open>settings.ollama.model\<close>.
\<close>

record env =
  chain :: "nat \<Rightarrow> pystr \<Rightarrow> chain_run"
  clock :: "nat \<Rightarrow> real"
  lax_float :: "json \<Rightarrow> real option"
  settings_ollama_model :: pystr

definition time_time :: "env \<Rightarrow> world \<Rightarrow> real \<times> world" where
  "time_time e w =
     (clock e (ticks w), w\<lparr>ticks := Suc (ticks w), events := events w @ [Clock (ticks w)]\<rparr>)"

text \<open>\<open>SentimentAnalysisService.analyze_sentiment\<close>, on the state.\<close>

definition service_analyze_sentiment ::
  "env \<Rightarrow> SentimentAnalysisService \<Rightarrow> pystr \<Rightarrow> world \<Rightarrow> (exn + SentimentResult) \<times> world" where
  "service_analyze_sentiment e service txt w =
     (case analyze_run (lax_float e) service (chain e (length (llm_calls w)) txt) of
        (res, msgs) \<Rightarrow>
          (res, w\<lparr>llm_calls := llm_calls w @ [txt], logged := logged w @ msgs,
                  events := events w @ [Backend txt]\<rparr>))"

text \<open>
  \<^verbatim>\<open>if cached_result:\<close> holds for a value that is not \<open>None\<close> and is true.
\<close>

definition hit_value :: "json option \<Rightarrow> json option" where
  "hit_value cached_result =
     (case cached_result of None \<Rightarrow> None | Some j \<Rightarrow> if truthy j then Some j else None)"

text \<open>
  A keyword given both by \<open>**cached_result\<close> and by name is a \<open>TypeError\<close>, as is a
  \<open>cached_result\<close> that is no dictionary.
\<close>

definition repeated_keyword :: "(pystr \<times> json) list \<Rightarrow> bool" where
  "repeated_keyword d \<longleftrightarrow>
     map_of d (ascii ''cached'') \<noteq> None \<or> map_of d (ascii ''processing_time'') \<noteq> None
     \<or> map_of d (ascii ''timestamp'') \<noteq> None"

definition cache_hit :: "env \<Rightarrow> json \<Rightarrow> real \<Rightarrow> world \<Rightarrow> (exn + AnalysisResponse) \<times> world" where
  "cache_hit e cached_result start_time w2 =
     (case cached_result of
        JObj d \<Rightarrow>
          (case time_time e w2 of (t1, w3) \<Rightarrow>
           case time_time e w3 of (ts, w4) \<Rightarrow>
             if repeated_keyword d then (Inl TypeError, w4)
             else (new_AnalysisResponse (lax_float e) d True (t1 - start_time) ts, w4))
      | _ \<Rightarrow> (Inl TypeError, w2))"

definition response_data :: "env \<Rightarrow> pystr \<Rightarrow> SentimentResult \<Rightarrow> (pystr \<times> json) list" where
  "response_data e txt sentiment_result =
     [(ascii ''text'', JStr txt),
      (ascii ''sentiment'', model_dump sentiment_result),
      (ascii ''model_used'', JStr (settings_ollama_model e))]"

definition cache_miss ::
  "env \<Rightarrow> SentimentAnalysisService \<Rightarrow> RedisCache \<Rightarrow> pystr \<Rightarrow> string \<Rightarrow> real \<Rightarrow> world
     \<Rightarrow> (exn + AnalysisResponse) \<times> world" where
  "cache_miss e service cache txt cache_key start_time w2 =
     (case service_analyze_sentiment e service txt w2 of
        (Inl ex, w3) \<Rightarrow> (Inl ex, w3)
      | (Inr sentiment_result, w3) \<Rightarrow>
          (case RedisCache_set cache cache_key (JObj (response_data e txt sentiment_result)) None w3 of
             (ok, w4) \<Rightarrow>
           case time_time e w4 of (t1, w5) \<Rightarrow>
           case time_time e w5 of (ts, w6) \<Rightarrow>
             (new_AnalysisResponse (lax_float e) (response_data e txt sentiment_result) False
                (t1 - start_time) ts, w6)))"

text \<open>The handler of \<open>POST /analyze\<close>.\<close>

definition analyze_sentiment ::
  "env \<Rightarrow> SentimentAnalysisService \<Rightarrow> RedisCache \<Rightarrow> pystr \<Rightarrow> world
     \<Rightarrow> (exn + AnalysisResponse) \<times> world" where
  "analyze_sentiment e service cache txt w =
     (case time_time e w of (start_time, w1) \<Rightarrow>
      case generate_cache_key txt of
        Inl ex \<Rightarrow> (Inl ex, w1)
      | Inr cache_key \<Rightarrow>
          (case RedisCache_get cache cache_key w1 of (cached_result, w2) \<Rightarrow>
           case hit_value cached_result of
             Some j \<Rightarrow> cache_hit e j start_time w2
           | None \<Rightarrow> cache_miss e service cache txt cache_key start_time w2))"

section \<open>Example data\<close>

definition world0 :: world where
  "world0 =
     \<lparr>redis = \<lparr>kv = Map.empty, fault = None, calls = []\<rparr>,
      cache_calls = [], llm_calls = [], logged = [], ticks = 0, events = []\<rparr>"

definition world_down :: world where
  "world_down = world0\<lparr>redis := (redis world0)\<lparr>fault := Some ''connection refused''\<rparr>\<rparr>"

definition cache_on :: RedisCache where
  "cache_on = \<lparr>ttl = 3600, cache_enabled = True\<rparr>"

definition cache_off :: RedisCache where
  "cache_off = \<lparr>ttl = 3600, cache_enabled = False\<rparr>"

definition service30 :: SentimentAnalysisService where
  "service30 = \<lparr>ollama_model = ascii ''llama3'', request_timeout = 30\<rparr>"

definition no_lax :: "json \<Rightarrow> real option" where
  "no_lax j = None"

definition reply_positive :: json where
  "reply_positive =
     JObj [(ascii ''label'', JStr (ascii ''positive'')), (ascii ''confidence'', JNum 0.95),
           (ascii ''explanation'', JStr (ascii ''Great product!''))]"

definition reply_too_high :: json where
  "reply_too_high =
     JObj [(ascii ''label'', JStr (ascii ''positive'')), (ascii ''confidence'', JNum 1.5)]"

definition reply_happy :: json where
  "reply_happy =
     JObj [(ascii ''label'', JStr (ascii ''happy'')), (ascii ''confidence'', JNum 0.5)]"

text \<open>
  The text of the tests, a backend that answers in time with a valid reply, one that
  takes longer than the timeout, and a store seeded with the entry of the test of the
  cache hit.
\<close>

definition love :: pystr where
  "love = ascii ''I love this product!''"

definition env0 :: env where
  "env0 =
     \<lparr>chain = (\<lambda>n t. \<lparr>duration = 1, outcome = Inr reply_positive\<rparr>),
      clock = (\<lambda>n. real n),
      lax_float = no_lax,
      settings_ollama_model = ascii ''llama3''\<rparr>"

definition env_slow :: env where
  "env_slow = env0\<lparr>chain := (\<lambda>n t. \<lparr>duration = 31, outcome = Inr reply_positive\<rparr>)\<rparr>"

definition sentiment_cached :: SentimentResult where
  "sentiment_cached =
     \<lparr>label = POSITIVE, confidence = 0.88, explanation = Some (ascii ''Cached explanation'')\<rparr>"

definition entry_llama2 :: json where
  "entry_llama2 =
     JObj [(ascii ''text'', JStr love), (ascii ''sentiment'', model_dump sentiment_cached),
           (ascii ''model_used'', JStr (ascii ''llama2''))]"

definition world_seeded :: world where
  "world_seeded =
     world0\<lparr>redis := (redis world0)
       \<lparr>kv := [''5de35b58d7f5de8d786e8b90bacac816'' \<mapsto> (JsonText entry_llama2, 3600)]\<rparr>\<rparr>"

section \<open>Properties of the cache store\<close>

lemma redis_get_calls: "calls (snd (redis_get key r)) = calls r @ [GET key]"
  by (simp add: redis_get_def split: option.split)

lemma RedisCache_get_disabled:
  "\<not> cache_enabled self \<Longrightarrow>
     RedisCache_get self key w
       = (None, w\<lparr>cache_calls := cache_calls w @ [CacheGet key],
                   events := events w @ [Cache (CacheGet key)]\<rparr>)"
  by (simp add: RedisCache_get_def Let_def)

lemma RedisCache_set_disabled:
  "\<not> cache_enabled self \<Longrightarrow>
     RedisCache_set self key v t w
       = (False, w\<lparr>cache_calls := cache_calls w @ [CacheSet key v],
                    events := events w @ [Cache (CacheSet key v)]\<rparr>)"
  by (simp add: RedisCache_set_def Let_def)

lemma RedisCache_get_read_error:
  "redis_get key (redis w) = (Inl ex, r) \<Longrightarrow> fst (RedisCache_get self key w) = None"
  by (simp add: RedisCache_get_def Let_def)

lemma RedisCache_get_loads_error:
  "redis_get key (redis w) = (Inr (Some data), r) \<Longrightarrow> json_loads data = Inl ex
     \<Longrightarrow> fst (RedisCache_get self key w) = None"
  by (simp add: RedisCache_get_def Let_def)

lemma RedisCache_set_write_error:
  "redis_setex key (actual_ttl self t) (json_dumps v) (redis w) = (Inl ex, r)
     \<Longrightarrow> fst (RedisCache_set self key v t w) = False"
  by (simp add: RedisCache_set_def Let_def)

lemma redis_get_fault:
  "fault r = Some m \<Longrightarrow> redis_get key r = (Inl (OtherException m), r\<lparr>calls := calls r @ [GET key]\<rparr>)"
  by (simp add: redis_get_def)

lemma redis_setex_fault:
  "fault r = Some m \<Longrightarrow>
     redis_setex key t v r = (Inl (OtherException m), r\<lparr>calls := calls r @ [SETEX key t v]\<rparr>)"
  by (simp add: redis_setex_def)

text \<open>
  Claim C5. \<open>RedisCache.get\<close> returns \<open>None\<close> and \<open>RedisCache.set\<close> returns
  \<open>False\<close> whenever caching is disabled or the call of the Redis client raises (for
  \<open>get\<close> also when \<open>json.loads\<close> raises); neither raises, their results hold no
  exception. When caching is disabled both return before any call of the client: the
  server, and so the record of the client's calls, and the error log are unchanged.
\<close>

theorem RedisCache_get_set_degrade:
  "(\<not> cache_enabled self \<longrightarrow>
      fst (RedisCache_get self key w) = None
      \<and> redis (snd (RedisCache_get self key w)) = redis w
      \<and> logged (snd (RedisCache_get self key w)) = logged w
      \<and> fst (RedisCache_set self key v t w) = False
      \<and> redis (snd (RedisCache_set self key v t w)) = redis w
      \<and> logged (snd (RedisCache_set self key v t w)) = logged w)
   \<and> (\<forall>ex r. redis_get key (redis w) = (Inl ex, r) \<longrightarrow> fst (RedisCache_get self key w) = None)
   \<and> (\<forall>data r ex. redis_get key (redis w) = (Inr (Some data), r) \<and> json_loads data = Inl ex
          \<longrightarrow> fst (RedisCache_get self key w) = None)
   \<and> (\<forall>ex r. redis_setex key (actual_ttl self t) (json_dumps v) (redis w) = (Inl ex, r)
          \<longrightarrow> fst (RedisCache_set self key v t w) = False)
   \<and> (\<forall>m. fault (redis w) = Some m \<longrightarrow>
          fst (RedisCache_get self key w) = None \<and> fst (RedisCache_set self key v t w) = False)"
proof (intro conjI allI impI)
  fix m assume "fault (redis w) = Some m"
  then show "fst (RedisCache_get self key w) = None"
    by (simp add: RedisCache_get_read_error [OF redis_get_fault])
next
  fix m assume "fault (redis w) = Some m"
  then show "fst (RedisCache_set self key v t w) = False"
    by (simp add: RedisCache_set_write_error [OF redis_setex_fault])
qed (auto simp: RedisCache_get_disabled RedisCache_set_disabled
      dest: RedisCache_get_read_error RedisCache_get_loads_error RedisCache_set_write_error)

text \<open>
  Claim C9. \<open>RedisCache.set\<close> with \<open>ttl=0\<close> does what it does with no \<open>ttl\<close>: the
  zero is replaced by \<open>self.ttl\<close>. With caching enabled, a server that answers and a
  positive default, the entry is stored under the default time to live.
\<close>

theorem RedisCache_set_ttl_zero:
  "RedisCache_set self key v (Some 0) w = RedisCache_set self key v None w
   \<and> (cache_enabled self \<and> fault (redis w) = None \<and> 0 < ttl self \<longrightarrow>
        fst (RedisCache_set self key v (Some 0) w) = True
        \<and> kv (redis (snd (RedisCache_set self key v (Some 0) w))) key = Some (json_dumps v, ttl self)
        \<and> calls (redis (snd (RedisCache_set self key v (Some 0) w)))
            = calls (redis w) @ [SETEX key (ttl self) (json_dumps v)])"
  by (simp add: RedisCache_set_def actual_ttl_def redis_setex_def Let_def)

text \<open>
  Claim C10. With caching disabled, \<open>delete\<close>, \<open>health_check\<close> and
  \<open>clear_cache\<close> still call the Redis client (\<open>DEL\<close>, \<open>PING\<close>, \<open>FLUSHDB\<close>),
  while \<open>get\<close> and \<open>set\<close> call nothing; \<open>delete\<close> returns \<open>True\<close> for a key
  that is stored on a server that answers, and the key is gone afterwards.
\<close>

theorem RedisCache_disabled_still_io:
  "\<not> cache_enabled self \<Longrightarrow>
     calls (redis (snd (RedisCache_delete self key w))) = calls (redis w) @ [DEL key]
     \<and> calls (redis (snd (RedisCache_health_check self w))) = calls (redis w) @ [PING]
     \<and> calls (redis (snd (RedisCache_clear_cache self w))) = calls (redis w) @ [FLUSHDB]
     \<and> calls (redis (snd (RedisCache_get self key w))) = calls (redis w)
     \<and> calls (redis (snd (RedisCache_set self key v t w))) = calls (redis w)
     \<and> (fault (redis w) = None \<and> kv (redis w) key \<noteq> None \<longrightarrow>
          fst (RedisCache_delete self key w) = True
          \<and> kv (redis (snd (RedisCache_delete self key w))) key = None)"
  by (simp add: RedisCache_delete_def RedisCache_health_check_def RedisCache_clear_cache_def
      RedisCache_get_def RedisCache_set_def Let_def
      redis_delete_def redis_ping_def redis_flushdb_def split: option.split)


text \<open>
  The disabled cache and the cache whose server refuses the connection, on the empty
  store.
\<close>

theorem RedisCache_get_set_degrade_witness:
  "fst (RedisCache_get cache_off ''k'' world0) = None
   \<and> redis (snd (RedisCache_get cache_off ''k'' world0)) = redis world0
   \<and> fst (RedisCache_set cache_off ''k'' JNull None world0) = False
   \<and> redis (snd (RedisCache_set cache_off ''k'' JNull None world0)) = redis world0
   \<and> fst (RedisCache_get cache_on ''k'' world_down) = None
   \<and> fst (RedisCache_set cache_on ''k'' JNull None world_down) = False"
  using RedisCache_get_set_degrade [of cache_off "''k''" world0 JNull None]
    RedisCache_get_set_degrade [of cache_on "''k''" world_down JNull None]
  by (simp add: cache_off_def world_down_def world0_def)

text \<open>
  On the empty store, with the default of 3600 seconds.
\<close>

theorem RedisCache_set_ttl_zero_witness:
  "RedisCache_set cache_on ''k'' JNull (Some 0) world0 = RedisCache_set cache_on ''k'' JNull None world0
   \<and> kv (redis (snd (RedisCache_set cache_on ''k'' JNull (Some 0) world0))) ''k''
       = Some (json_dumps JNull, 3600)"
proof -
  have h: "cache_enabled cache_on \<and> fault (redis world0) = None \<and> 0 < ttl cache_on"
    by (simp add: cache_on_def world0_def)
  have t: "ttl cache_on = 3600"
    by (simp add: cache_on_def)
  from RedisCache_set_ttl_zero [of cache_on "''k''" JNull world0] h
  have "RedisCache_set cache_on ''k'' JNull (Some 0) world0
          = RedisCache_set cache_on ''k'' JNull None world0
        \<and> kv (redis (snd (RedisCache_set cache_on ''k'' JNull (Some 0) world0))) ''k''
          = Some (json_dumps JNull, ttl cache_on)"
    by blast
  then show ?thesis
    unfolding t by blast
qed

text \<open>
  An entry written through an enabled cache is deleted through a disabled one.
\<close>

theorem RedisCache_disabled_still_io_witness:
  "calls (redis (snd (RedisCache_delete cache_off ''k''
      (snd (RedisCache_set cache_on ''k'' JNull None world0)))))
     = [SETEX ''k'' 3600 (json_dumps JNull), DEL ''k'']
   \<and> fst (RedisCache_delete cache_off ''k'' (snd (RedisCache_set cache_on ''k'' JNull None world0)))
     = True"
proof -
  let ?w = "snd (RedisCache_set cache_on ''k'' JNull None world0)"
  have w: "kv (redis ?w) ''k'' = Some (json_dumps JNull, 3600)" "fault (redis ?w) = None"
    "calls (redis ?w) = [SETEX ''k'' 3600 (json_dumps JNull)]"
    by (simp_all add: RedisCache_set_def redis_setex_def actual_ttl_def cache_on_def world0_def
        Let_def)
  have "\<not> cache_enabled cache_off"
    by (simp add: cache_off_def)
  from RedisCache_disabled_still_io [OF this, of "''k''" ?w JNull None] w show ?thesis
    by simp
qed

section \<open>Properties of the data model and of the backend client\<close>

lemma label_of_value_label_value: "label_of_value (label_value l) = Some l"
  by (cases l) (simp_all add: label_of_value_def ascii_def)

lemma label_of_value_Some: "label_of_value s = Some l \<Longrightarrow> s = label_value l"
  by (auto simp: label_of_value_def split: if_splits)

lemma label_of_value_None:
  "label_of_value s = None \<longleftrightarrow>
     s \<notin> {ascii ''positive'', ascii ''negative'', ascii ''neutral'', ascii ''mixed''}"
  by (simp add: label_of_value_def)

lemma label_value_cases:
  "label_value l \<in> {ascii ''positive'', ascii ''negative'', ascii ''neutral'', ascii ''mixed''}"
  by (cases l) simp_all

lemma validate_label_Inr:
  "validate_label v = Inr l \<Longrightarrow> v = Some (JStr (label_value l))"
  by (auto simp: validate_label_def split: option.splits json.splits dest: label_of_value_Some)

lemma validate_confidence_Inr:
  "validate_confidence lax v = Inr x \<Longrightarrow>
     0 \<le> x \<and> x \<le> 1 \<and> (\<exists>c. v = Some c \<and> to_float lax c = Some x)"
  by (auto simp: validate_confidence_def split: option.splits if_splits)

lemma sentiment_fields_Inr:
  "sentiment_fields lax d = Inr r \<Longrightarrow>
     validate_label (map_of d (ascii ''label'')) = Inr (label r)
     \<and> validate_confidence lax (map_of d (ascii ''confidence'')) = Inr (confidence r)
     \<and> validate_optional_str ''explanation'' (map_of d (ascii ''explanation'')) = Inr (explanation r)"
  by (auto simp: sentiment_fields_def split: sum.splits)

lemma sentiment_fields_label_error:
  "validate_label (map_of d (ascii ''label'')) = Inl es \<Longrightarrow>
     \<exists>errs. sentiment_fields lax d = Inl errs \<and> set es \<subseteq> set errs"
  by (auto simp: sentiment_fields_def split: sum.splits)

lemma sentiment_fields_confidence_error:
  "validate_confidence lax (map_of d (ascii ''confidence'')) = Inl es \<Longrightarrow>
     \<exists>errs. sentiment_fields lax d = Inl errs \<and> set es \<subseteq> set errs"
  by (auto simp: sentiment_fields_def split: sum.splits)

lemma validate_sentiment_Inr:
  assumes "validate_sentiment lax v = Inr r"
  shows "0 \<le> confidence r \<and> confidence r \<le> 1
     \<and> (\<exists>d c. v = Some (JObj d)
           \<and> map_of d (ascii ''label'') = Some (JStr (label_value (label r)))
           \<and> map_of d (ascii ''confidence'') = Some c \<and> to_float lax c = Some (confidence r))"
proof -
  from assms obtain d where d: "v = Some (JObj d)" "sentiment_fields lax d = Inr r"
    by (auto simp: validate_sentiment_def split: option.splits json.splits)
  from sentiment_fields_Inr [OF d(2)] d(1) show ?thesis
    by (auto dest!: validate_label_Inr validate_confidence_Inr)
qed

lemma validate_sentiment_bad_label:
  assumes "map_of d (ascii ''label'') = Some (JStr s)"
    and "s \<notin> {ascii ''positive'', ascii ''negative'', ascii ''neutral'', ascii ''mixed''}"
  shows "\<exists>errs. validate_sentiment lax (Some (JObj d)) = Inl errs \<and> EnumError \<in> set errs"
proof -
  from assms(2) have "label_of_value s = None"
    by (simp add: label_of_value_None)
  with assms(1) have "validate_label (map_of d (ascii ''label'')) = Inl [EnumError]"
    by (simp add: validate_label_def)
  from sentiment_fields_label_error [OF this] show ?thesis
    by (auto simp: validate_sentiment_def)
qed

lemma validate_sentiment_bad_confidence:
  assumes "map_of d (ascii ''confidence'') = Some c" and "to_float lax c = Some x"
    and "x < 0 \<or> 1 < x"
  shows "\<exists>errs. validate_sentiment lax (Some (JObj d)) = Inl errs
           \<and> (GreaterThanEqual \<in> set errs \<or> LessThanEqual \<in> set errs)"
proof -
  from assms have "validate_confidence lax (map_of d (ascii ''confidence'')) = Inl [GreaterThanEqual]
      \<or> validate_confidence lax (map_of d (ascii ''confidence'')) = Inl [LessThanEqual]"
    by (auto simp: validate_confidence_def)
  then show ?thesis
    by (auto simp: validate_sentiment_def dest!: sentiment_fields_confidence_error [where lax = lax])
qed

lemma new_AnalysisResponse_sentiment_error:
  "validate_sentiment lax (map_of entry (ascii ''sentiment'')) = Inl es \<Longrightarrow>
     \<exists>errs. new_AnalysisResponse lax entry c pt ts = Inl (ValidationError errs) \<and> set es \<subseteq> set errs"
  by (auto simp: new_AnalysisResponse_def split: sum.splits)

text \<open>
  Claim C8. A \<open>SentimentResult\<close> that validation accepts has a confidence between 0
  and 1 and a label that is one of the four values, both read from the validated object.
  An object whose label is a string other than the four values, or whose confidence is
  a number below 0 or above 1, is rejected with a validation error, as a reply of the
  backend (\<open>model_validate\<close>) and as the \<open>sentiment\<close> of a cached entry
  (the constructor of \<open>AnalysisResponse\<close>).
\<close>

theorem SentimentResult_invariant:
  "(\<forall>r. model_validate lax j = Inr r \<longrightarrow>
      0 \<le> confidence r \<and> confidence r \<le> 1
      \<and> label_value (label r) \<in> {ascii ''positive'', ascii ''negative'', ascii ''neutral'', ascii ''mixed''}
      \<and> (\<exists>d c. j = JObj d
            \<and> map_of d (ascii ''label'') = Some (JStr (label_value (label r)))
            \<and> map_of d (ascii ''confidence'') = Some c \<and> to_float lax c = Some (confidence r)))
   \<and> (\<forall>d. j = JObj d
        \<and> ((\<exists>s. map_of d (ascii ''label'') = Some (JStr s)
               \<and> s \<notin> {ascii ''positive'', ascii ''negative'', ascii ''neutral'', ascii ''mixed''})
           \<or> (\<exists>c x. map_of d (ascii ''confidence'') = Some c \<and> to_float lax c = Some x
                 \<and> (x < 0 \<or> 1 < x)))
      \<longrightarrow> (\<exists>errs. model_validate lax j = Inl (ValidationError errs) \<and> errs \<noteq> [])
          \<and> (\<forall>entry c pt ts. map_of entry (ascii ''sentiment'') = Some j \<longrightarrow>
                (\<exists>errs. new_AnalysisResponse lax entry c pt ts = Inl (ValidationError errs)
                   \<and> errs \<noteq> [])))"
proof (intro conjI allI impI)
  fix r assume "model_validate lax j = Inr r"
  then have v: "validate_sentiment lax (Some j) = Inr r"
    by (simp add: model_validate_def split: sum.splits)
  from validate_sentiment_Inr [OF v]
  show "0 \<le> confidence r" "confidence r \<le> 1"
    "\<exists>d c. j = JObj d
       \<and> map_of d (ascii ''label'') = Some (JStr (label_value (label r)))
       \<and> map_of d (ascii ''confidence'') = Some c \<and> to_float lax c = Some (confidence r)"
    by auto
  show "label_value (label r) \<in> {ascii ''positive'', ascii ''negative'', ascii ''neutral'', ascii ''mixed''}"
    by (rule label_value_cases)
next
  fix d
  assume a: "j = JObj d
        \<and> ((\<exists>s. map_of d (ascii ''label'') = Some (JStr s)
               \<and> s \<notin> {ascii ''positive'', ascii ''negative'', ascii ''neutral'', ascii ''mixed''})
           \<or> (\<exists>c x. map_of d (ascii ''confidence'') = Some c \<and> to_float lax c = Some x
                 \<and> (x < 0 \<or> 1 < x)))"
  then have "\<exists>errs. validate_sentiment lax (Some (JObj d)) = Inl errs \<and> errs \<noteq> []"
    using validate_sentiment_bad_label [of d _ lax] validate_sentiment_bad_confidence [of d _ lax]
    by fastforce
  then obtain es where es: "validate_sentiment lax (Some j) = Inl es" "es \<noteq> []"
    using a by auto
  then show "\<exists>errs. model_validate lax j = Inl (ValidationError errs) \<and> errs \<noteq> []"
    by (simp add: model_validate_def)
  fix entry c pt ts
  assume "map_of entry (ascii ''sentiment'') = Some j"
  with es new_AnalysisResponse_sentiment_error [of lax entry es c pt ts]
  show "\<exists>errs. new_AnalysisResponse lax entry c pt ts = Inl (ValidationError errs) \<and> errs \<noteq> []"
    by auto
qed


lemma model_validate_eval:
  "model_validate no_lax reply_positive
     = Inr \<lparr>label = POSITIVE, confidence = 0.95, explanation = Some (ascii ''Great product!'')\<rparr>"
  "model_validate no_lax reply_too_high = Inl (ValidationError [LessThanEqual])"
  "model_validate no_lax reply_happy = Inl (ValidationError [EnumError])"
  by (simp_all add: model_validate_def validate_sentiment_def sentiment_fields_def
      validate_label_def validate_confidence_def validate_optional_str_def to_float_def
      label_of_value_def ascii_def reply_positive_def reply_too_high_def reply_happy_def no_lax_def)

text \<open>
  A valid reply, a reply with confidence 1.5 and a reply with the label \<open>happy\<close>.
\<close>

theorem SentimentResult_invariant_witness:
  "model_validate no_lax reply_positive
     = Inr \<lparr>label = POSITIVE, confidence = 0.95, explanation = Some (ascii ''Great product!'')\<rparr>
   \<and> (0::real) \<le> 0.95 \<and> (0.95::real) \<le> 1
   \<and> (\<exists>errs. model_validate no_lax reply_too_high = Inl (ValidationError errs) \<and> errs \<noteq> [])
   \<and> (\<exists>errs. model_validate no_lax reply_happy = Inl (ValidationError errs) \<and> errs \<noteq> [])"
proof -
  have high: "reply_too_high = JObj [(ascii ''label'', JStr (ascii ''positive'')),
        (ascii ''confidence'', JNum 1.5)]
      \<and> map_of [(ascii ''label'', JStr (ascii ''positive'')), (ascii ''confidence'', JNum 1.5)]
        (ascii ''confidence'') = Some (JNum 1.5)
      \<and> to_float no_lax (JNum 1.5) = Some 1.5 \<and> ((1.5::real) < 0 \<or> 1 < (1.5::real))"
    by (simp add: to_float_def ascii_def reply_too_high_def)
  have happy: "reply_happy = JObj [(ascii ''label'', JStr (ascii ''happy'')),
        (ascii ''confidence'', JNum 0.5)]
      \<and> map_of [(ascii ''label'', JStr (ascii ''happy'')), (ascii ''confidence'', JNum 0.5)]
        (ascii ''label'') = Some (JStr (ascii ''happy''))
      \<and> ascii ''happy'' \<notin> {ascii ''positive'', ascii ''negative'', ascii ''neutral'', ascii ''mixed''}"
    by (simp add: ascii_def reply_happy_def)
  from SentimentResult_invariant [of no_lax reply_positive] model_validate_eval(1)
  have "(0::real) \<le> 0.95 \<and> (0.95::real) \<le> 1"
    by simp
  moreover from SentimentResult_invariant [of no_lax reply_too_high] high
  have "\<exists>errs. model_validate no_lax reply_too_high = Inl (ValidationError errs) \<and> errs \<noteq> []"
    by blast
  moreover from SentimentResult_invariant [of no_lax reply_happy] happy
  have "\<exists>errs. model_validate no_lax reply_happy = Inl (ValidationError errs) \<and> errs \<noteq> []"
    by blast
  ultimately show ?thesis
    using model_validate_eval(1) by blast
qed

lemma fallback_valid:
  "model_validate lax fallback_reply =
     Inr \<lparr>label = NEUTRAL, confidence = 0, explanation = Some (ascii ''Unable to determine sentiment'')\<rparr>"
  by (simp add: model_validate_def validate_sentiment_def sentiment_fields_def fallback_reply_def
      validate_label_def validate_confidence_def validate_optional_str_def to_float_def
      label_of_value_def ascii_def)

lemma model_validate_Inl: "model_validate lax j = Inl ex \<Longrightarrow> \<exists>errs. ex = ValidationError errs"
  by (auto simp: model_validate_def split: sum.splits)

lemma analyze_run_timeout:
  "real_of_int (request_timeout service) < duration run \<Longrightarrow>
     analyze_run lax service run =
       (Inl (TimeoutError ''Sentiment analysis request timed out''), [''Sentiment analysis timeout''])"
  by (simp add: analyze_run_def wait_for_def handle_exception_def)

lemma analyze_run_in_time:
  "\<not> real_of_int (request_timeout service) < duration run \<Longrightarrow>
     analyze_run lax service run =
       (case (case outcome run of Inl ex \<Rightarrow> Inl ex | Inr result \<Rightarrow> model_validate lax result) of
          Inr r \<Rightarrow> (Inr r, [])
        | Inl ex \<Rightarrow> handle_exception lax ex)"
  by (simp add: analyze_run_def wait_for_def)

lemma handle_exception_kinds:
  "fst (handle_exception lax ex) = Inl ex' \<Longrightarrow>
     (\<exists>m. ex' = TimeoutError m) \<or> (\<exists>m ds. ex' = SentimentAnalysisError m ds \<and> ds \<noteq> [])"
  by (cases ex) (auto simp: handle_exception_def fallback_valid)

lemma analyze_run_kinds:
  assumes "fst (analyze_run lax service run) = Inl ex"
  shows "(\<exists>m. ex = TimeoutError m) \<or> (\<exists>m ds. ex = SentimentAnalysisError m ds \<and> ds \<noteq> [])"
proof (cases "real_of_int (request_timeout service) < duration run")
  case True
  with assms show ?thesis
    by (auto simp: analyze_run_timeout)
next
  case False
  with assms show ?thesis
    by (auto simp: analyze_run_in_time split: sum.splits dest: handle_exception_kinds)
qed

lemma analyze_run_Inr_valid:
  assumes "fst (analyze_run lax service run) = Inr r"
  shows "0 \<le> confidence r \<and> confidence r \<le> 1"
proof -
  have v: "model_validate lax j = Inr r \<Longrightarrow> 0 \<le> confidence r \<and> confidence r \<le> 1" for j
    using validate_sentiment_Inr [of lax "Some j" r]
    by (simp add: model_validate_def split: sum.splits)
  show ?thesis
  proof (cases "real_of_int (request_timeout service) < duration run")
    case True
    with assms show ?thesis
      by (simp add: analyze_run_timeout)
  next
    case False
    have h: "fst (handle_exception lax ex) = Inr r \<Longrightarrow> 0 \<le> confidence r \<and> confidence r \<le> 1" for ex
      by (cases ex) (auto simp: handle_exception_def fallback_valid)
    from False assms show ?thesis
      by (auto simp: analyze_run_in_time split: sum.splits dest: v h)
  qed
qed

text \<open>
  Claim C2. The three ways of \<open>SentimentAnalysisService.analyze_sentiment\<close>: a reply
  that is no JSON (the parser raises) gives the fallback judgment
  \<open>neutral, 0.0, Unable to determine sentiment\<close> as a success; a run longer than the
  timeout gives the timeout failure; a JSON value that fails validation, or any other
  exception of the chain, gives the analysis failure with its details. A JSON value that
  validates is returned. No failure other than the timeout and the analysis failure leaves
  the method, and the analysis failure always carries details.
\<close>

theorem analyze_run_three_way:
  "(\<not> real_of_int (request_timeout service) < duration run
      \<and> outcome run = Inl OutputParserException \<longrightarrow>
      fst (analyze_run lax service run)
        = Inr \<lparr>label = NEUTRAL, confidence = 0,
               explanation = Some (ascii ''Unable to determine sentiment'')\<rparr>)
   \<and> (real_of_int (request_timeout service) < duration run \<longrightarrow>
      fst (analyze_run lax service run)
        = Inl (TimeoutError ''Sentiment analysis request timed out''))
   \<and> (\<forall>j errs. \<not> real_of_int (request_timeout service) < duration run
        \<and> outcome run = Inr j \<and> model_validate lax j = Inl (ValidationError errs) \<longrightarrow>
      fst (analyze_run lax service run)
        = Inl (SentimentAnalysisError ''Invalid response format from LLM''
                 [(''validation_errors'', ValidationErrors errs)]))
   \<and> (\<forall>m. \<not> real_of_int (request_timeout service) < duration run
        \<and> outcome run = Inl (OtherException m) \<longrightarrow>
      fst (analyze_run lax service run)
        = Inl (SentimentAnalysisError ''Unexpected error during sentiment analysis''
                 [(''error'', ErrorText m)]))
   \<and> (\<forall>j r. \<not> real_of_int (request_timeout service) < duration run
        \<and> outcome run = Inr j \<and> model_validate lax j = Inr r \<longrightarrow>
      fst (analyze_run lax service run) = Inr r)
   \<and> (\<forall>ex. fst (analyze_run lax service run) = Inl ex \<longrightarrow>
        (\<exists>m. ex = TimeoutError m) \<or> (\<exists>m ds. ex = SentimentAnalysisError m ds \<and> ds \<noteq> []))"
proof (intro conjI allI impI)
  fix ex assume "fst (analyze_run lax service run) = Inl ex"
  then show "(\<exists>m. ex = TimeoutError m) \<or> (\<exists>m ds. ex = SentimentAnalysisError m ds \<and> ds \<noteq> [])"
    by (rule analyze_run_kinds)
qed (simp_all add: analyze_run_timeout analyze_run_in_time handle_exception_def fallback_valid)


text \<open>
  With a timeout of 30: a reply that is no JSON, a run of 31, a reply with confidence
  1.5, a refused connection and a valid reply.
\<close>

theorem analyze_run_three_way_witness:
  "fst (analyze_run no_lax service30 \<lparr>duration = 1, outcome = Inl OutputParserException\<rparr>)
     = Inr \<lparr>label = NEUTRAL, confidence = 0,
            explanation = Some (ascii ''Unable to determine sentiment'')\<rparr>
   \<and> fst (analyze_run no_lax service30 \<lparr>duration = 31, outcome = Inr reply_positive\<rparr>)
     = Inl (TimeoutError ''Sentiment analysis request timed out'')
   \<and> fst (analyze_run no_lax service30 \<lparr>duration = 1, outcome = Inr reply_too_high\<rparr>)
     = Inl (SentimentAnalysisError ''Invalid response format from LLM''
              [(''validation_errors'', ValidationErrors [LessThanEqual])])
   \<and> fst (analyze_run no_lax service30
            \<lparr>duration = 1, outcome = Inl (OtherException ''connection refused'')\<rparr>)
     = Inl (SentimentAnalysisError ''Unexpected error during sentiment analysis''
              [(''error'', ErrorText ''connection refused'')])
   \<and> fst (analyze_run no_lax service30 \<lparr>duration = 1, outcome = Inr reply_positive\<rparr>)
     = Inr \<lparr>label = POSITIVE, confidence = 0.95, explanation = Some (ascii ''Great product!'')\<rparr>"
  using analyze_run_three_way [of service30 "\<lparr>duration = 1, outcome = Inl OutputParserException\<rparr>" no_lax]
    analyze_run_three_way [of service30 "\<lparr>duration = 31, outcome = Inr reply_positive\<rparr>" no_lax]
    analyze_run_three_way [of service30 "\<lparr>duration = 1, outcome = Inr reply_too_high\<rparr>" no_lax]
    analyze_run_three_way [of service30
      "\<lparr>duration = 1, outcome = Inl (OtherException ''connection refused'')\<rparr>" no_lax]
    analyze_run_three_way [of service30 "\<lparr>duration = 1, outcome = Inr reply_positive\<rparr>" no_lax]
  by (simp add: service30_def model_validate_eval)

section \<open>Properties of the key derivation\<close>

lemma upt_64: "[0..<64] = [0, 1, 2, 3, 4, 5, 6, 7, 8, 9, 10, 11, 12, 13, 14, 15, 16, 17, 18, 19, 20, 21, 22, 23, 24, 25, 26, 27, 28, 29, 30, 31, 32, 33, 34, 35, 36, 37, 38, 39, 40, 41, 42, 43, 44, 45, 46, 47, 48, 49, 50, 51, 52, 53, 54, 55, 56, 57, 58, 59, 60, 61, 62, 63]"
  by (simp add: upt_conv_Cons)
lemma replicate_numeral: "replicate (numeral k) x = x # replicate (pred_numeral k) x"
  by (subst numeral_eq_Suc) simp
lemma le_bytes_numeral: "le_bytes (numeral k) v = of_nat (v mod 256) # le_bytes (pred_numeral k) (v div 256)"
  by (subst numeral_eq_Suc) simp
lemma blocks_numeral: "blocks k (numeral n) xs = take k xs # blocks k (pred_numeral n) (drop k xs)"
  by (subst numeral_eq_Suc) simp
lemma length_le_bytes: "length (le_bytes n v) = n"
  by (induction n arbitrary: v) simp_all
lemma length_md5: "length (md5 bs) = 16"
  by (simp add: md5_def length_le_bytes split: prod.split)
lemma length_hexdigest: "length (hexdigest bs) = 2 * length bs"
  by (induction bs) (simp_all add: hexdigest_def hex_byte_def)
lemma length_md5_pad_short:
  assumes "length bs < 56"
  shows "length (md5_pad bs) = 64"
proof -
  define m where "m = 55 - length bs"
  have "119 - length bs = 64 + m"
    using assms by (simp add: m_def)
  moreover have "m < 64"
    unfolding m_def by linarith
  ultimately have "(119 - length bs) mod 64 = m"
    by simp
  then show ?thesis
    using assms by (simp add: md5_pad_def length_le_bytes m_def)
qed

lemma md5_short:
  assumes "length (md5_pad bs) = 64"
  shows "md5 bs = (case md5_chunk md5_init (md5_pad bs) of
           (a, b, c, d) \<Rightarrow> concat (map (le_bytes 4) [a, b, c, d]))"
  using assms by (simp add: md5_def)
lemmas md5_eval = md5_init_def md5_f_def md5_g_def md5_K_def md5_s_def add32_def not32_def
  leftrotate_def upt_64 blocks_numeral

lemma md5_pad_a: "md5_pad [97] = [97, 128, 0, 0, 0, 0, 0, 0, 0, 0, 0, 0, 0, 0, 0, 0, 0, 0, 0, 0, 0, 0, 0, 0, 0, 0, 0, 0, 0, 0, 0, 0, 0, 0, 0, 0, 0, 0, 0, 0, 0, 0, 0, 0, 0, 0, 0, 0, 0, 0, 0, 0, 0, 0, 0, 0, 8, 0, 0, 0, 0, 0, 0, 0]"
  by (simp add: md5_pad_def replicate_numeral le_bytes_numeral)

lemma md5_chunk_a:
  "md5_chunk md5_init [97, 128, 0, 0, 0, 0, 0, 0, 0, 0, 0, 0, 0, 0, 0, 0, 0, 0, 0, 0, 0, 0, 0, 0, 0, 0, 0, 0, 0, 0, 0, 0, 0, 0, 0, 0, 0, 0, 0, 0, 0, 0, 0, 0, 0, 0, 0, 0, 0, 0, 0, 0, 0, 0, 0, 0, 8, 0, 0, 0, 0, 0, 0, 0] = (3111502092, 2830561728, 3801727793, 1629910889)"
  by (simp add: md5_eval)

lemma md5_a: "md5 [97] = [12, 193, 117, 185, 192, 241, 182, 168, 49, 195, 153, 226, 105, 119, 38, 97]"
proof -
  have "length (md5_pad [97]) = 64"
    by (simp add: length_md5_pad_short)
  then show ?thesis
    by (simp add: md5_short md5_pad_a md5_chunk_a le_bytes_numeral)
qed

lemma generate_cache_key_a:
  "generate_cache_key (ascii ''a'') = Inr ''0cc175b9c0f1b6a831c399e269772661''"
  by (simp add: generate_cache_key_def ascii_def utf8_char_def md5_a hexdigest_def hex_byte_def
      hex_digit_def)

lemma md5_pad_A: "md5_pad [65] = [65, 128, 0, 0, 0, 0, 0, 0, 0, 0, 0, 0, 0, 0, 0, 0, 0, 0, 0, 0, 0, 0, 0, 0, 0, 0, 0, 0, 0, 0, 0, 0, 0, 0, 0, 0, 0, 0, 0, 0, 0, 0, 0, 0, 0, 0, 0, 0, 0, 0, 0, 0, 0, 0, 0, 0, 8, 0, 0, 0, 0, 0, 0, 0]"
  by (simp add: md5_pad_def replicate_numeral le_bytes_numeral)

lemma md5_chunk_A:
  "md5_chunk md5_init [65, 128, 0, 0, 0, 0, 0, 0, 0, 0, 0, 0, 0, 0, 0, 0, 0, 0, 0, 0, 0, 0, 0, 0, 0, 0, 0, 0, 0, 0, 0, 0, 0, 0, 0, 0, 0, 0, 0, 0, 0, 0, 0, 0, 0, 0, 0, 0, 0, 0, 0, 0, 0, 0, 0, 0, 8, 0, 0, 0, 0, 0, 0, 0] = (1885521279, 2819598311, 3073726746, 700361774)"
  by (simp add: md5_eval)

lemma md5_A: "md5 [65] = [127, 197, 98, 112, 231, 167, 15, 168, 26, 89, 53, 183, 46, 172, 190, 41]"
proof -
  have "length (md5_pad [65]) = 64"
    by (simp add: length_md5_pad_short)
  then show ?thesis
    by (simp add: md5_short md5_pad_A md5_chunk_A le_bytes_numeral)
qed

lemma generate_cache_key_A:
  "generate_cache_key (ascii ''A'') = Inr ''7fc56270e7a70fa81a5935b72eacbe29''"
  by (simp add: generate_cache_key_def ascii_def utf8_char_def md5_A hexdigest_def hex_byte_def
      hex_digit_def)

lemma md5_pad_space_a: "md5_pad [32, 97] = [32, 97, 128, 0, 0, 0, 0, 0, 0, 0, 0, 0, 0, 0, 0, 0, 0, 0, 0, 0, 0, 0, 0, 0, 0, 0, 0, 0, 0, 0, 0, 0, 0, 0, 0, 0, 0, 0, 0, 0, 0, 0, 0, 0, 0, 0, 0, 0, 0, 0, 0, 0, 0, 0, 0, 0, 16, 0, 0, 0, 0, 0, 0, 0]"
  by (simp add: md5_pad_def replicate_numeral le_bytes_numeral)

lemma md5_chunk_space_a:
  "md5_chunk md5_init [32, 97, 128, 0, 0, 0, 0, 0, 0, 0, 0, 0, 0, 0, 0, 0, 0, 0, 0, 0, 0, 0, 0, 0, 0, 0, 0, 0, 0, 0, 0, 0, 0, 0, 0, 0, 0, 0, 0, 0, 0, 0, 0, 0, 0, 0, 0, 0, 0, 0, 0, 0, 0, 0, 0, 0, 16, 0, 0, 0, 0, 0, 0, 0] = (3666356629, 4074306455, 211379690, 633661955)"
  by (simp add: md5_eval)

lemma md5_space_a: "md5 [32, 97] = [149, 41, 136, 218, 151, 251, 216, 242, 234, 101, 153, 12, 3, 234, 196, 37]"
proof -
  have "length (md5_pad [32, 97]) = 64"
    by (simp add: length_md5_pad_short)
  then show ?thesis
    by (simp add: md5_short md5_pad_space_a md5_chunk_space_a le_bytes_numeral)
qed

lemma generate_cache_key_space_a:
  "generate_cache_key (ascii '' a'') = Inr ''952988da97fbd8f2ea65990c03eac425''"
  by (simp add: generate_cache_key_def ascii_def utf8_char_def md5_space_a hexdigest_def hex_byte_def
      hex_digit_def)

lemma md5_pad_a_space: "md5_pad [97, 32] = [97, 32, 128, 0, 0, 0, 0, 0, 0, 0, 0, 0, 0, 0, 0, 0, 0, 0, 0, 0, 0, 0, 0, 0, 0, 0, 0, 0, 0, 0, 0, 0, 0, 0, 0, 0, 0, 0, 0, 0, 0, 0, 0, 0, 0, 0, 0, 0, 0, 0, 0, 0, 0, 0, 0, 0, 16, 0, 0, 0, 0, 0, 0, 0]"
  by (simp add: md5_pad_def replicate_numeral le_bytes_numeral)

lemma md5_chunk_a_space:
  "md5_chunk md5_init [97, 32, 128, 0, 0, 0, 0, 0, 0, 0, 0, 0, 0, 0, 0, 0, 0, 0, 0, 0, 0, 0, 0, 0, 0, 0, 0, 0, 0, 0, 0, 0, 0, 0, 0, 0, 0, 0, 0, 0, 0, 0, 0, 0, 0, 0, 0, 0, 0, 0, 0, 0, 0, 0, 0, 0, 16, 0, 0, 0, 0, 0, 0, 0] = (2987131545, 942854475, 1556482009, 58504642)"
  by (simp add: md5_eval)

lemma md5_a_space: "md5 [97, 32] = [153, 2, 12, 178, 75, 209, 50, 56, 217, 7, 198, 92, 194, 181, 124, 3]"
proof -
  have "length (md5_pad [97, 32]) = 64"
    by (simp add: length_md5_pad_short)
  then show ?thesis
    by (simp add: md5_short md5_pad_a_space md5_chunk_a_space le_bytes_numeral)
qed

lemma generate_cache_key_a_space:
  "generate_cache_key (ascii ''a '') = Inr ''99020cb24bd13238d907c65cc2b57c03''"
  by (simp add: generate_cache_key_def ascii_def utf8_char_def md5_a_space hexdigest_def hex_byte_def
      hex_digit_def)

lemma md5_pad_love: "md5_pad [73, 32, 108, 111, 118, 101, 32, 116, 104, 105, 115, 32, 112, 114, 111, 100, 117, 99, 116, 33] = [73, 32, 108, 111, 118, 101, 32, 116, 104, 105, 115, 32, 112, 114, 111, 100, 117, 99, 116, 33, 128, 0, 0, 0, 0, 0, 0, 0, 0, 0, 0, 0, 0, 0, 0, 0, 0, 0, 0, 0, 0, 0, 0, 0, 0, 0, 0, 0, 0, 0, 0, 0, 0, 0, 0, 0, 160, 0, 0, 0, 0, 0, 0, 0]"
  by (simp add: md5_pad_def replicate_numeral le_bytes_numeral)

lemma md5_chunk_love:
  "md5_chunk md5_init [73, 32, 108, 111, 118, 101, 32, 116, 104, 105, 115, 32, 112, 114, 111, 100, 117, 99, 116, 33, 128, 0, 0, 0, 0, 0, 0, 0, 0, 0, 0, 0, 0, 0, 0, 0, 0, 0, 0, 0, 0, 0, 0, 0, 0, 0, 0, 0, 0, 0, 0, 0, 0, 0, 0, 0, 160, 0, 0, 0, 0, 0, 0, 0] = (1482416989, 2380199383, 2425056888, 382257850)"
  by (simp add: md5_eval)

lemma md5_love: "md5 [73, 32, 108, 111, 118, 101, 32, 116, 104, 105, 115, 32, 112, 114, 111, 100, 117, 99, 116, 33] = [93, 227, 91, 88, 215, 245, 222, 141, 120, 110, 139, 144, 186, 202, 200, 22]"
proof -
  have "length (md5_pad [73, 32, 108, 111, 118, 101, 32, 116, 104, 105, 115, 32, 112, 114, 111, 100, 117, 99, 116, 33]) = 64"
    by (simp add: length_md5_pad_short)
  then show ?thesis
    by (simp add: md5_short md5_pad_love md5_chunk_love le_bytes_numeral)
qed

lemma generate_cache_key_love:
  "generate_cache_key (ascii ''I love this product!'') = Inr ''5de35b58d7f5de8d786e8b90bacac816''"
  by (simp add: generate_cache_key_def ascii_def utf8_char_def md5_love hexdigest_def hex_byte_def
      hex_digit_def)


subsection \<open>The encoder\<close>

lemma unat_byte: "n < 256 \<Longrightarrow> unat (of_nat n :: 8 word) = n"
  by (simp add: unat_of_nat)

lemma split64: "a div 64 = b div 64 \<Longrightarrow> a mod 64 = b mod 64 \<Longrightarrow> a = (b::nat)"
  by (metis div_mult_mod_eq)

lemma div_bounds:
  "c < 2048 \<Longrightarrow> c div 64 < (32::nat)"
  "c < 65536 \<Longrightarrow> c div 4096 < (16::nat)"
  "c < 1114112 \<Longrightarrow> c div 262144 < (5::nat)"
  "c mod 64 < (64::nat)"
  by (simp_all add: less_mult_imp_div_less)


lemma utf8_char_bytes:
  assumes "utf8_char c = Inr bs"
  shows "(c < 128 \<and> map unat bs = [c])
    \<or> (128 \<le> c \<and> c < 2048 \<and> map unat bs = [192 + c div 64, 128 + c mod 64])
    \<or> (2048 \<le> c \<and> c < 65536
         \<and> map unat bs = [224 + c div 4096, 128 + c div 64 mod 64, 128 + c mod 64])
    \<or> (65536 \<le> c \<and> c < 1114112
         \<and> map unat bs
             = [240 + c div 262144, 128 + c div 4096 mod 64, 128 + c div 64 mod 64, 128 + c mod 64])"
proof -
  have b: "192 + c div 64 < 256" if "c < 2048"
    using div_bounds(1) [OF that] by simp
  have b3: "224 + c div 4096 < 256" if "c < 65536"
    using div_bounds(2) [OF that] by simp
  have b4: "240 + c div 262144 < 256" if "c < 1114112"
    using div_bounds(3) [OF that] by simp
  have m: "128 + x mod 64 < 256" for x :: nat
    using div_bounds(4) [of x] by simp
  consider "c < 128" | "128 \<le> c" "c < 2048" | "2048 \<le> c" "c < 65536" | "65536 \<le> c" "c < 1114112"
    | "1114112 \<le> c"
    by linarith
  then show ?thesis
  proof cases
    case 1
    with assms have "bs = [of_nat c]"
      by (simp add: utf8_char_def)
    with 1 unat_byte [of c] show ?thesis
      by simp
  next
    case 2
    with assms have "bs = [of_nat (192 + c div 64), of_nat (128 + c mod 64)]"
      by (simp add: utf8_char_def)
    with 2 unat_byte [OF b] unat_byte [OF m, of c] show ?thesis
      by simp
  next
    case 3
    with assms have "bs = [of_nat (224 + c div 4096), of_nat (128 + c div 64 mod 64),
        of_nat (128 + c mod 64)]"
      by (simp add: utf8_char_def split: if_splits)
    with 3 unat_byte [OF b3] unat_byte [OF m, of "c div 64"] unat_byte [OF m, of c] show ?thesis
      by simp
  next
    case 4
    with assms have "bs = [of_nat (240 + c div 262144), of_nat (128 + c div 4096 mod 64),
        of_nat (128 + c div 64 mod 64), of_nat (128 + c mod 64)]"
      by (simp add: utf8_char_def)
    with 4 unat_byte [OF b4] unat_byte [OF m, of "c div 4096"] unat_byte [OF m, of "c div 64"]
      unat_byte [OF m, of c]
    show ?thesis
      by simp
  next
    case 5
    with assms show ?thesis
      by (simp add: utf8_char_def)
  qed
qed

lemma utf8_char_length:
  assumes "utf8_char c = Inr bs"
  shows "bs \<noteq> []
    \<and> length bs = (if unat (hd bs) < 128 then 1 else if unat (hd bs) < 224 then 2
                   else if unat (hd bs) < 240 then 3 else 4)"
proof -
  have h: "map unat bs = x # xs \<Longrightarrow> bs \<noteq> [] \<and> unat (hd bs) = x \<and> length bs = Suc (length xs)"
    for x xs
    by (cases bs) auto
  from utf8_char_bytes [OF assms] show ?thesis
  proof (elim disjE conjE)
    assume "c < 128" "map unat bs = [c]"
    with h [of c "[]"] show ?thesis by simp
  next
    assume "c < 2048" "map unat bs = [192 + c div 64, 128 + c mod 64]"
    with h [of "192 + c div 64" "[128 + c mod 64]"] div_bounds(1) [of c] show ?thesis by simp
  next
    assume "c < 65536"
      "map unat bs = [224 + c div 4096, 128 + c div 64 mod 64, 128 + c mod 64]"
    with h [of "224 + c div 4096" "[128 + c div 64 mod 64, 128 + c mod 64]"] div_bounds(2) [of c]
    show ?thesis by simp
  next
    assume "map unat bs
      = [240 + c div 262144, 128 + c div 4096 mod 64, 128 + c div 64 mod 64, 128 + c mod 64]"
    with h [of "240 + c div 262144" "[128 + c div 4096 mod 64, 128 + c div 64 mod 64, 128 + c mod 64]"]
    show ?thesis by simp
  qed
qed

lemma div_4096: "x div 4096 = (x div 64) div 64" "x div 262144 = (x div 4096) div 64" for x :: nat
proof -
  have "x div (64 * 64) = (x div 64) div 64" by (rule div_mult2_eq)
  then show "x div 4096 = (x div 64) div 64" by simp
  have "x div (4096 * 64) = (x div 4096) div 64" by (rule div_mult2_eq)
  then show "x div 262144 = (x div 4096) div 64" by simp
qed

lemma split4096: "x = y"
  if "x div 4096 = y div 4096" "x div 64 mod 64 = y div 64 mod 64" "x mod 64 = y mod 64"
  for x y :: nat
proof -
  from that(1) have "(x div 64) div 64 = (y div 64) div 64"
    unfolding div_4096(1) .
  then have "x div 64 = y div 64"
    using that(2) by (rule split64)
  then show ?thesis
    using that(3) by (rule split64)
qed

lemma split262144: "x = y"
  if "x div 262144 = y div 262144" "x div 4096 mod 64 = y div 4096 mod 64"
    "x div 64 mod 64 = y div 64 mod 64" "x mod 64 = y mod 64"
  for x y :: nat
proof -
  from that(1) have "(x div 4096) div 64 = (y div 4096) div 64"
    unfolding div_4096(2) .
  then have "x div 4096 = y div 4096"
    using that(2) by (rule split64)
  then show ?thesis
    using that(3,4) by (rule split4096)
qed

lemma utf8_char_inj:
  assumes "utf8_char c = Inr bs" and "utf8_char c' = Inr bs"
  shows "c = c'"
proof -
  note c = utf8_char_bytes [OF assms(1)] and c' = utf8_char_bytes [OF assms(2)]
  consider "length bs = 1" | "length bs = 2" | "length bs = 3" | "length bs = 4"
    using utf8_char_length [OF assms(1)] by (auto split: if_splits)
  then show ?thesis
  proof cases
    case 1
    then have l: "length (map unat bs) = 1" by simp
    from c l have "map unat bs = [c]" by auto
    moreover from c' l have "map unat bs = [c']" by auto
    ultimately show ?thesis by simp
  next
    case 2
    then have l: "length (map unat bs) = 2" by simp
    from c l have "map unat bs = [192 + c div 64, 128 + c mod 64]" by auto
    moreover from c' l have "map unat bs = [192 + c' div 64, 128 + c' mod 64]" by auto
    ultimately have "c div 64 = c' div 64" "c mod 64 = c' mod 64" by simp_all
    then show ?thesis by (rule split64)
  next
    case 3
    then have l: "length (map unat bs) = 3" by simp
    from c l have "map unat bs = [224 + c div 4096, 128 + c div 64 mod 64, 128 + c mod 64]"
      by auto
    moreover from c' l
    have "map unat bs = [224 + c' div 4096, 128 + c' div 64 mod 64, 128 + c' mod 64]"
      by auto
    ultimately have "c div 4096 = c' div 4096" "c div 64 mod 64 = c' div 64 mod 64"
      "c mod 64 = c' mod 64"
      by simp_all
    then show ?thesis by (rule split4096)
  next
    case 4
    then have l: "length (map unat bs) = 4" by simp
    from c l have "map unat bs
        = [240 + c div 262144, 128 + c div 4096 mod 64, 128 + c div 64 mod 64, 128 + c mod 64]"
      by auto
    moreover from c' l have "map unat bs
        = [240 + c' div 262144, 128 + c' div 4096 mod 64, 128 + c' div 64 mod 64, 128 + c' mod 64]"
      by auto
    ultimately have "c div 262144 = c' div 262144" "c div 4096 mod 64 = c' div 4096 mod 64"
      "c div 64 mod 64 = c' div 64 mod 64" "c mod 64 = c' mod 64"
      by simp_all
    then show ?thesis by (rule split262144)
  qed
qed

lemma encode_utf8_inj:
  "encode_utf8 t = Inr bs \<Longrightarrow> encode_utf8 t' = Inr bs \<Longrightarrow> t = t'"
proof (induction t arbitrary: t' bs)
  case Nil
  show ?case
  proof (cases t')
    case Nil
    then show ?thesis by simp
  next
    case (Cons c' cs')
    with Nil.prems obtain b r where "utf8_char c' = Inr b" "encode_utf8 cs' = Inr r" "b @ r = []"
      by (auto split: sum.splits)
    with utf8_char_length [of c' b] show ?thesis by simp
  qed
next
  case (Cons c cs)
  from Cons.prems(1) obtain b r where c: "utf8_char c = Inr b" "encode_utf8 cs = Inr r" "bs = b @ r"
    by (auto split: sum.splits)
  show ?case
  proof (cases t')
    case Nil
    with Cons.prems(2) c utf8_char_length [of c b] show ?thesis by simp
  next
    case (Cons c' cs')
    with Cons.prems(2) obtain b' r' where
      c': "utf8_char c' = Inr b'" "encode_utf8 cs' = Inr r'" "bs = b' @ r'"
      by (auto split: sum.splits)
    have ne: "b \<noteq> []" "b' \<noteq> []"
      using utf8_char_length [OF c(1)] utf8_char_length [OF c'(1)] by simp_all
    have "hd (b @ r) = hd b" "hd (b' @ r') = hd b'"
      using ne by simp_all
    with c(3) c'(3) have "hd b = hd b'"
      by simp
    then have "length b = length b'"
      using utf8_char_length [OF c(1)] utf8_char_length [OF c'(1)] by simp
    with c(3) c'(3) have eq: "b = b'" "r = r'"
      by simp_all
    from c(1) c'(1) eq(1) have "c = c'"
      by (simp add: utf8_char_inj)
    moreover from Cons.IH [OF c(2)] c'(2) eq(2) have "cs = cs'"
      by simp
    ultimately show ?thesis
      using Cons by simp
  qed
qed


lemma utf8_char_Inr_scalar: "utf8_char c = Inr bs \<Longrightarrow> scalar_value c"
  by (simp add: utf8_char_def scalar_value_def split: if_splits)

lemma utf8_char_Inl: "utf8_char c = Inl ex \<Longrightarrow> ex = UnicodeEncodeError"
  by (simp add: utf8_char_def split: if_splits)

lemma encode_utf8_Inr_scalar: "encode_utf8 t = Inr bs \<Longrightarrow> list_all scalar_value t"
proof (induction t arbitrary: bs)
  case Nil
  then show ?case by simp
next
  case (Cons c cs)
  then show ?case
    by (auto simp: utf8_char_Inr_scalar split: sum.splits)
qed

lemma encode_utf8_Inl: "encode_utf8 t = Inl ex \<Longrightarrow> ex = UnicodeEncodeError"
proof (induction t)
  case Nil
  then show ?case by simp
next
  case (Cons c cs)
  then show ?case
    by (auto dest: utf8_char_Inl split: sum.splits)
qed

lemma encode_utf8_ascii: "list_all (\<lambda>c. c < 128) t \<Longrightarrow> encode_utf8 t = Inr (map of_nat t)"
  by (induction t) (simp_all add: utf8_char_def)

lemma hex_digit_inj: "hex_digit a = hex_digit b \<Longrightarrow> a mod 16 = b mod 16"
  unfolding hex_digit_def by (subst (asm) nth_eq_iff_index_eq) simp_all

lemma hex_byte_inj:
  assumes "hex_byte a = hex_byte b"
  shows "a = b"
proof -
  have lt: "unat x div 16 < 16" for x :: byte
    using unsigned_less [of x, where ?'a = nat] by (simp add: less_mult_imp_div_less)
  from assms have "hex_digit (unat a div 16) = hex_digit (unat b div 16)"
    "hex_digit (unat a mod 16) = hex_digit (unat b mod 16)"
    by (simp_all add: hex_byte_def)
  then have "unat a div 16 mod 16 = unat b div 16 mod 16" "unat a mod 16 = unat b mod 16"
    by (auto dest: hex_digit_inj)
  with lt [of a] lt [of b] have "unat a div 16 = unat b div 16" "unat a mod 16 = unat b mod 16"
    by simp_all
  then have "unat a = unat b"
    by (metis div_mult_mod_eq)
  then show ?thesis
    by (rule word_unat_eq_iff [THEN iffD2])
qed

lemma hexdigest_inj: "hexdigest xs = hexdigest ys \<Longrightarrow> xs = ys"
proof (induction xs arbitrary: ys)
  case Nil
  then show ?case
    by (cases ys) (simp_all add: hexdigest_def hex_byte_def)
next
  case (Cons x xs)
  show ?case
  proof (cases ys)
    case Nil
    with Cons.prems show ?thesis
      by (simp add: hexdigest_def hex_byte_def)
  next
    case (Cons y ys')
    with Cons.prems have "hex_byte x = hex_byte y" "hexdigest xs = hexdigest ys'"
      by (simp_all add: hexdigest_def hex_byte_def)
    with Cons.IH [of ys'] Cons show ?thesis
      by (simp add: hex_byte_inj)
  qed
qed

lemma utf8_char_scalar: "scalar_value c \<Longrightarrow> \<exists>bs. utf8_char c = Inr bs"
  by (auto simp: scalar_value_def utf8_char_def)

lemma encode_utf8_scalar: "list_all scalar_value t \<Longrightarrow> \<exists>bs. encode_utf8 t = Inr bs"
proof (induction t)
  case Nil
  then show ?case by simp
next
  case (Cons c cs)
  then obtain bs rest where "utf8_char c = Inr bs" "encode_utf8 cs = Inr rest"
    using utf8_char_scalar [of c] by auto
  then show ?case by simp
qed

lemma encode_utf8_not_scalar:
  "\<not> list_all scalar_value t \<Longrightarrow> encode_utf8 t = Inl UnicodeEncodeError"
  using encode_utf8_Inr_scalar [of t] encode_utf8_Inl [of t]
  by (cases "encode_utf8 t") auto

lemma length_key: "generate_cache_key txt = Inr key \<Longrightarrow> length key = 32"
  by (auto simp: generate_cache_key_def length_hexdigest length_md5 split: sum.splits)

lemma generate_cache_key_Inr:
  "generate_cache_key t = Inr key \<Longrightarrow> \<exists>bs. encode_utf8 t = Inr bs \<and> key = hexdigest (md5 bs)"
  by (auto simp: generate_cache_key_def split: sum.splits)

lemma generate_cache_key_same:
  assumes "generate_cache_key t = Inr key" and "generate_cache_key t' = Inr key"
  shows "t = t'
    \<or> (\<exists>bs bs'. encode_utf8 t = Inr bs \<and> encode_utf8 t' = Inr bs' \<and> bs \<noteq> bs'
          \<and> md5 bs = md5 bs')"
proof -
  from generate_cache_key_Inr [OF assms(1)] obtain bs where
    bs: "encode_utf8 t = Inr bs" "key = hexdigest (md5 bs)"
    by blast
  from generate_cache_key_Inr [OF assms(2)] obtain bs' where
    bs': "encode_utf8 t' = Inr bs'" "key = hexdigest (md5 bs')"
    by blast
  from bs(2) bs'(2) have md: "md5 bs = md5 bs'"
    by (simp add: hexdigest_inj)
  show ?thesis
  proof (cases "bs = bs'")
    case True
    with bs(1) bs'(1) have "t = t'"
      by (simp add: encode_utf8_inj)
    then show ?thesis ..
  next
    case False
    with bs(1) bs'(1) md show ?thesis
      by blast
  qed
qed

lemma SentimentAnalysisRequest_text_Inr:
  "SentimentAnalysisRequest_text t = Inr v \<Longrightarrow>
     v = t \<and> list_all scalar_value t \<and> 1 \<le> length t \<and> length t \<le> 10000"
  by (cases t) (simp_all add: SentimentAnalysisRequest_text_def split: if_splits)

text \<open>
  Claim C7. \<open>generate_cache_key\<close> is a function of the text alone, so two calls on a
  text give the same key. For every text of Unicode scalar values the derivation
  succeeds: the key is the hexadecimal MD5 digest of the UTF-8 bytes of the text as it
  is, and has 32 characters. The text of a request that validated is such a text, so on
  every text the handler derives a key from, the derivation returns a key of 32
  characters. The only texts on which the encoder raises are those that hold a code point
  that is no scalar value (a surrogate), and the validation of the request refuses each
  of them before the handler is called. Nothing is normalised: a text of ASCII characters
  is hashed as its own code points, one byte each, and two texts with the same key are
  the same text, character for character, unless their distinct UTF-8 encodings collide
  under MD5. In particular \<open>A\<close> and \<open>a\<close>, and \<open>a\<close> with a blank before or after it,
  have different keys.
\<close>

theorem generate_cache_key_scalar:
  "(list_all scalar_value txt \<longrightarrow>
      (\<exists>bs. encode_utf8 txt = Inr bs \<and> generate_cache_key txt = Inr (hexdigest (md5 bs))
         \<and> length (hexdigest (md5 bs)) = 32))
   \<and> (\<forall>v. SentimentAnalysisRequest_text txt = Inr v \<longrightarrow>
         v = txt \<and> (\<exists>key. generate_cache_key v = Inr key \<and> length key = 32))
   \<and> (\<not> list_all scalar_value txt \<longrightarrow>
         generate_cache_key txt = Inl UnicodeEncodeError
         \<and> SentimentAnalysisRequest_text txt = Inl [StringUnicode ''text''])
   \<and> (list_all (\<lambda>c. c < 128) txt \<longrightarrow> encode_utf8 txt = Inr (map of_nat txt))
   \<and> (\<forall>txt' key. generate_cache_key txt = Inr key \<and> generate_cache_key txt' = Inr key \<longrightarrow>
         txt = txt'
         \<or> (\<exists>bs bs'. encode_utf8 txt = Inr bs \<and> encode_utf8 txt' = Inr bs' \<and> bs \<noteq> bs'
               \<and> md5 bs = md5 bs'))
   \<and> generate_cache_key (ascii ''A'') \<noteq> generate_cache_key (ascii ''a'')
   \<and> generate_cache_key (ascii '' a'') \<noteq> generate_cache_key (ascii ''a'')
   \<and> generate_cache_key (ascii ''a '') \<noteq> generate_cache_key (ascii ''a'')"
proof -
  have ok: "\<exists>bs. encode_utf8 t = Inr bs \<and> generate_cache_key t = Inr (hexdigest (md5 bs))
         \<and> length (hexdigest (md5 bs)) = 32"
    if "list_all scalar_value t" for t
  proof -
    from that obtain bs where "encode_utf8 t = Inr bs"
      using encode_utf8_scalar by blast
    then show ?thesis
      by (simp add: generate_cache_key_def length_hexdigest length_md5)
  qed
  have req: "v = t \<and> (\<exists>key. generate_cache_key v = Inr key \<and> length key = 32)"
    if "SentimentAnalysisRequest_text t = Inr v" for t v
    using SentimentAnalysisRequest_text_Inr [OF that] ok [of t] by auto
  have bad: "generate_cache_key t = Inl UnicodeEncodeError
      \<and> SentimentAnalysisRequest_text t = Inl [StringUnicode ''text'']"
    if "\<not> list_all scalar_value t" for t
    using that
    by (simp add: generate_cache_key_def encode_utf8_not_scalar SentimentAnalysisRequest_text_def)
  have same: "t = t'
      \<or> (\<exists>bs bs'. encode_utf8 t = Inr bs \<and> encode_utf8 t' = Inr bs' \<and> bs \<noteq> bs'
            \<and> md5 bs = md5 bs')"
    if "generate_cache_key t = Inr key \<and> generate_cache_key t' = Inr key" for t t' key
    using that generate_cache_key_same [of t key t'] by blast
  have diff: "generate_cache_key (ascii ''A'') \<noteq> generate_cache_key (ascii ''a'')"
    "generate_cache_key (ascii '' a'') \<noteq> generate_cache_key (ascii ''a'')"
    "generate_cache_key (ascii ''a '') \<noteq> generate_cache_key (ascii ''a'')"
    by (simp_all add: generate_cache_key_a generate_cache_key_A generate_cache_key_space_a
        generate_cache_key_a_space)
  from ok req bad same encode_utf8_ascii diff show ?thesis
    by (intro conjI allI impI) blast+
qed

text \<open>
  The text \<open>a\<close>, which validates as the text of a request; its key is the MD5 test
  vector of RFC 1321. And the text of the single surrogate code point \<open>U+D800\<close>: the
  validation of the request refuses it, and the encoder would raise on it.
\<close>

theorem generate_cache_key_scalar_witness:
  "list_all scalar_value (ascii ''a'')
   \<and> SentimentAnalysisRequest_text (ascii ''a'') = Inr (ascii ''a'')
   \<and> encode_utf8 (ascii ''a'') = Inr [97]
   \<and> generate_cache_key (ascii ''a'') = Inr ''0cc175b9c0f1b6a831c399e269772661''
   \<and> length ''0cc175b9c0f1b6a831c399e269772661'' = 32
   \<and> generate_cache_key [0xD800] = Inl UnicodeEncodeError
   \<and> SentimentAnalysisRequest_text [0xD800] = Inl [StringUnicode ''text'']"
proof -
  have s: "list_all scalar_value (ascii ''a'')"
    by (simp add: ascii_def scalar_value_def)
  have r: "SentimentAnalysisRequest_text (ascii ''a'') = Inr (ascii ''a'')"
    by (simp add: SentimentAnalysisRequest_text_def ascii_def scalar_value_def)
  have a: "list_all (\<lambda>c. c < 128) (ascii ''a'')"
    by (simp add: ascii_def)
  have n: "\<not> list_all scalar_value [0xD800]"
    by (simp add: scalar_value_def)
  note key_a = generate_cache_key_scalar [of "ascii ''a''"]
  from key_a r obtain key where "generate_cache_key (ascii ''a'') = Inr key" "length key = 32"
    by blast
  then have k: "generate_cache_key (ascii ''a'') = Inr ''0cc175b9c0f1b6a831c399e269772661''"
    "length ''0cc175b9c0f1b6a831c399e269772661'' = 32"
    by (simp_all add: generate_cache_key_a)
  from key_a a have "encode_utf8 (ascii ''a'') = Inr (map of_nat (ascii ''a''))"
    by blast
  then have e: "encode_utf8 (ascii ''a'') = Inr [97]"
    by (simp add: ascii_def)
  from generate_cache_key_scalar [of "[0xD800]"] n
  have d: "generate_cache_key [0xD800] = Inl UnicodeEncodeError"
    "SentimentAnalysisRequest_text [0xD800] = Inl [StringUnicode ''text'']"
    by blast+
  from s r e k d show ?thesis
    by blast
qed

section \<open>Properties of the request pipeline\<close>

subsection \<open>Validation of what the pipeline itself writes\<close>

lemma ascii_keys_distinct:
  "ascii ''label'' \<noteq> ascii ''confidence''" "ascii ''label'' \<noteq> ascii ''explanation''"
  "ascii ''confidence'' \<noteq> ascii ''explanation''"
  "ascii ''text'' \<noteq> ascii ''sentiment''" "ascii ''text'' \<noteq> ascii ''model_used''"
  "ascii ''sentiment'' \<noteq> ascii ''model_used''"
  "ascii ''cached'' \<noteq> ascii ''text''" "ascii ''cached'' \<noteq> ascii ''sentiment''"
  "ascii ''cached'' \<noteq> ascii ''model_used''"
  "ascii ''processing_time'' \<noteq> ascii ''text''" "ascii ''processing_time'' \<noteq> ascii ''sentiment''"
  "ascii ''processing_time'' \<noteq> ascii ''model_used''"
  "ascii ''timestamp'' \<noteq> ascii ''text''" "ascii ''timestamp'' \<noteq> ascii ''sentiment''"
  "ascii ''timestamp'' \<noteq> ascii ''model_used''"
  by (simp_all add: ascii_def)

lemma validate_sentiment_model_dump:
  assumes "0 \<le> confidence r" and "confidence r \<le> 1"
  shows "validate_sentiment lax (Some (model_dump r)) = Inr r"
  using assms
  by (cases "explanation r")
    (simp_all add: validate_sentiment_def model_dump_def sentiment_fields_def validate_label_def
      validate_confidence_def validate_optional_str_def to_float_def label_of_value_label_value
      ascii_keys_distinct ascii_keys_distinct [symmetric])

lemma entry_not_repeated:
  "\<not> repeated_keyword [(ascii ''text'', a), (ascii ''sentiment'', b), (ascii ''model_used'', c)]"
  by (simp add: repeated_keyword_def ascii_keys_distinct ascii_keys_distinct [symmetric])

lemma new_AnalysisResponse_entry:
  assumes "0 \<le> confidence r" and "confidence r \<le> 1"
  shows "new_AnalysisResponse lax
           [(ascii ''text'', JStr t), (ascii ''sentiment'', model_dump r), (ascii ''model_used'', JStr m)]
           c pt ts
         = Inr \<lparr>text_field = t, sentiment = r, cached = c, processing_time = Some pt,
                model_used = Some m, timestamp = ts\<rparr>"
  using validate_sentiment_model_dump [OF assms, of lax]
  by (simp add: new_AnalysisResponse_def validate_str_def validate_optional_str_def
      ascii_keys_distinct ascii_keys_distinct [symmetric])

lemma new_AnalysisResponse_Inr:
  assumes "new_AnalysisResponse lax d c pt ts = Inr r"
  shows "cached r = c \<and> processing_time r = Some pt \<and> timestamp r = ts
     \<and> validate_str ''text'' (map_of d (ascii ''text'')) = Inr (text_field r)
     \<and> validate_sentiment lax (map_of d (ascii ''sentiment'')) = Inr (sentiment r)
     \<and> validate_optional_str ''model_used'' (map_of d (ascii ''model_used'')) = Inr (model_used r)"
  using assms by (auto simp: new_AnalysisResponse_def split: sum.splits)

lemma new_AnalysisResponse_again:
  assumes "new_AnalysisResponse lax d c pt ts = Inr r"
  shows "new_AnalysisResponse lax d c' pt' ts'
     = Inr (r\<lparr>cached := c', processing_time := Some pt', timestamp := ts'\<rparr>)"
  using assms by (auto simp: new_AnalysisResponse_def split: sum.splits)


subsection \<open>What each step does to the state\<close>

lemma time_time_simps:
  "fst (time_time e w) = clock e (ticks w)"
  "snd (time_time e w) = w\<lparr>ticks := Suc (ticks w), events := events w @ [Clock (ticks w)]\<rparr>"
  by (simp_all add: time_time_def)

lemma RedisCache_get_fst:
  "fst (RedisCache_get c k w) =
     (if \<not> cache_enabled c then None
      else case fault (redis w) of
        Some m \<Rightarrow> None
      | None \<Rightarrow>
          (case kv (redis w) k of
             None \<Rightarrow> None
           | Some (s, n) \<Rightarrow>
               if str_truthy s then (case json_loads s of Inl ex \<Rightarrow> None | Inr j \<Rightarrow> Some j)
               else None))"
  by (simp add: RedisCache_get_def redis_get_def Let_def split: option.splits sum.splits)

lemma RedisCache_get_snd:
  "kv (redis (snd (RedisCache_get c k w))) = kv (redis w)"
  "fault (redis (snd (RedisCache_get c k w))) = fault (redis w)"
  "calls (redis (snd (RedisCache_get c k w)))
     = calls (redis w) @ (if cache_enabled c then [GET k] else [])"
  "cache_calls (snd (RedisCache_get c k w)) = cache_calls w @ [CacheGet k]"
  "llm_calls (snd (RedisCache_get c k w)) = llm_calls w"
  "ticks (snd (RedisCache_get c k w)) = ticks w"
  "events (snd (RedisCache_get c k w)) = events w @ [Cache (CacheGet k)]"
  by (simp_all add: RedisCache_get_def redis_get_def Let_def split: option.splits sum.splits)

lemma RedisCache_set_snd:
  "fault (redis (snd (RedisCache_set c k v t w))) = fault (redis w)"
  "calls (redis (snd (RedisCache_set c k v t w)))
     = calls (redis w) @ (if cache_enabled c then [SETEX k (actual_ttl c t) (json_dumps v)] else [])"
  "cache_calls (snd (RedisCache_set c k v t w)) = cache_calls w @ [CacheSet k v]"
  "llm_calls (snd (RedisCache_set c k v t w)) = llm_calls w"
  "ticks (snd (RedisCache_set c k v t w)) = ticks w"
  "events (snd (RedisCache_set c k v t w)) = events w @ [Cache (CacheSet k v)]"
  by (simp_all add: RedisCache_set_def redis_setex_def Let_def split: option.splits)

lemma RedisCache_set_kv:
  "kv (redis (snd (RedisCache_set c k v t w))) =
     (if cache_enabled c \<and> fault (redis w) = None \<and> 0 < actual_ttl c t
      then (kv (redis w))(k \<mapsto> (json_dumps v, actual_ttl c t))
      else kv (redis w))"
  by (simp add: RedisCache_set_def redis_setex_def Let_def split: option.splits)

lemma service_analyze_sentiment_fst:
  "fst (service_analyze_sentiment e service t w)
     = fst (analyze_run (lax_float e) service (chain e (length (llm_calls w)) t))"
  by (simp add: service_analyze_sentiment_def split: prod.splits)

lemma service_analyze_sentiment_snd:
  "llm_calls (snd (service_analyze_sentiment e service t w)) = llm_calls w @ [t]"
  "redis (snd (service_analyze_sentiment e service t w)) = redis w"
  "cache_calls (snd (service_analyze_sentiment e service t w)) = cache_calls w"
  "ticks (snd (service_analyze_sentiment e service t w)) = ticks w"
  "events (snd (service_analyze_sentiment e service t w)) = events w @ [Backend t]"
  by (simp_all add: service_analyze_sentiment_def split: prod.splits)

subsection \<open>The two paths of the pipeline\<close>

lemma analyze_sentiment_hit:
  assumes "generate_cache_key t = Inr key"
    and "hit_value (fst (RedisCache_get cache key (snd (time_time e w)))) = Some j"
  shows "analyze_sentiment e service cache t w
     = cache_hit e j (clock e (ticks w)) (snd (RedisCache_get cache key (snd (time_time e w))))"
  using assms by (auto simp: analyze_sentiment_def time_time_def split: prod.splits)

lemma analyze_sentiment_miss:
  assumes "generate_cache_key t = Inr key"
    and "hit_value (fst (RedisCache_get cache key (snd (time_time e w)))) = None"
  shows "analyze_sentiment e service cache t w
     = cache_miss e service cache t key (clock e (ticks w))
         (snd (RedisCache_get cache key (snd (time_time e w))))"
  using assms by (auto simp: analyze_sentiment_def time_time_def split: prod.splits)

lemma cache_hit_JObj:
  "cache_hit e (JObj d) st w2 =
     (if repeated_keyword d then Inl TypeError
      else new_AnalysisResponse (lax_float e) d True (clock e (ticks w2) - st)
             (clock e (Suc (ticks w2))),
      w2\<lparr>ticks := Suc (Suc (ticks w2)),
         events := events w2 @ [Clock (ticks w2), Clock (Suc (ticks w2))]\<rparr>)"
  by (simp add: cache_hit_def time_time_def)

lemma cache_hit_snd:
  "llm_calls (snd (cache_hit e j st w2)) = llm_calls w2"
  "cache_calls (snd (cache_hit e j st w2)) = cache_calls w2"
  "redis (snd (cache_hit e j st w2)) = redis w2"
  by (cases j; simp add: cache_hit_def time_time_def)+

lemma cache_hit_Inr:
  assumes "fst (cache_hit e j st w2) = Inr r"
  shows "\<exists>d. j = JObj d \<and> \<not> repeated_keyword d
     \<and> new_AnalysisResponse (lax_float e) d True (clock e (ticks w2) - st)
         (clock e (Suc (ticks w2))) = Inr r"
  using assms by (cases j) (auto simp: cache_hit_def time_time_def split: if_splits)

lemma cache_miss_fail:
  assumes "fst (analyze_run (lax_float e) service (chain e (length (llm_calls w2)) t)) = Inl ex"
  shows "cache_miss e service cache t key st w2
     = (Inl ex, snd (service_analyze_sentiment e service t w2))"
  using assms service_analyze_sentiment_fst [of e service t w2]
  by (cases "service_analyze_sentiment e service t w2") (simp add: cache_miss_def)

lemma cache_miss_ok:
  assumes "fst (analyze_run (lax_float e) service (chain e (length (llm_calls w2)) t)) = Inr s"
  shows "cache_miss e service cache t key st w2
     = (new_AnalysisResponse (lax_float e) (response_data e t s) False
          (clock e (ticks w2) - st) (clock e (Suc (ticks w2))),
        (snd (RedisCache_set cache key (JObj (response_data e t s)) None
               (snd (service_analyze_sentiment e service t w2))))
          \<lparr>ticks := Suc (Suc (ticks w2)),
           events := events w2 @ [Backend t, Cache (CacheSet key (JObj (response_data e t s))),
                                  Clock (ticks w2), Clock (Suc (ticks w2))]\<rparr>)"
proof -
  obtain res w3 where sv: "service_analyze_sentiment e service t w2 = (res, w3)"
    by (cases "service_analyze_sentiment e service t w2")
  with assms service_analyze_sentiment_fst [of e service t w2] have res: "res = Inr s"
    by simp
  have tk: "ticks w3 = ticks w2"
    using service_analyze_sentiment_snd(4) [of e service t w2] sv by simp
  obtain ok w4 where st: "RedisCache_set cache key (JObj (response_data e t s)) None w3 = (ok, w4)"
    by (cases "RedisCache_set cache key (JObj (response_data e t s)) None w3")
  have tk4: "ticks w4 = ticks w2"
    using RedisCache_set_snd(5) [of cache key "JObj (response_data e t s)" None w3] st tk by simp
  have ev: "events w3 = events w2 @ [Backend t]"
    using service_analyze_sentiment_snd(5) [of e service t w2] sv by simp
  have ev4: "events w4
      = events w2 @ [Backend t, Cache (CacheSet key (JObj (response_data e t s)))]"
    using RedisCache_set_snd(6) [of cache key "JObj (response_data e t s)" None w3] st ev by simp
  show ?thesis
    by (simp add: cache_miss_def sv res st time_time_def tk4 ev4)
qed


lemma hit_value_Some: "truthy j \<Longrightarrow> hit_value (Some j) = Some j"
  by (simp add: hit_value_def)

text \<open>
  Claim C1. When the lookup of the derived key returns a value that is true, the chain is
  not invoked (and nothing is written to the cache or changed in the store). When the
  value is a stored entry, an object of \<open>text\<close>, a valid \<open>sentiment\<close> and
  \<open>model_used\<close>, the pipeline returns the outcome with \<open>cached=True\<close>, the stored
  judgment and the stored model identifier; and whenever the pipeline returns an outcome
  on this path, it has \<open>cached=True\<close> and its judgment and model identifier are those
  validated from the stored value.
\<close>

theorem analyze_sentiment_cache_hit:
  assumes "generate_cache_key t = Inr key"
    and "fst (RedisCache_get cache key (snd (time_time e w))) = Some j"
    and "truthy j"
  shows "llm_calls (snd (analyze_sentiment e service cache t w)) = llm_calls w
    \<and> cache_calls (snd (analyze_sentiment e service cache t w)) = cache_calls w @ [CacheGet key]
    \<and> kv (redis (snd (analyze_sentiment e service cache t w))) = kv (redis w)
    \<and> (\<forall>t' s m.
          j = JObj [(ascii ''text'', JStr t'), (ascii ''sentiment'', model_dump s),
                    (ascii ''model_used'', JStr m)]
          \<and> 0 \<le> confidence s \<and> confidence s \<le> 1 \<longrightarrow>
          fst (analyze_sentiment e service cache t w)
            = Inr \<lparr>text_field = t', sentiment = s, cached = True,
                   processing_time = Some (clock e (Suc (ticks w)) - clock e (ticks w)),
                   model_used = Some m, timestamp = clock e (Suc (Suc (ticks w)))\<rparr>)
    \<and> (\<forall>r. fst (analyze_sentiment e service cache t w) = Inr r \<longrightarrow>
          cached r
          \<and> (\<exists>d. j = JObj d
                \<and> validate_sentiment (lax_float e) (map_of d (ascii ''sentiment''))
                    = Inr (sentiment r)
                \<and> validate_optional_str ''model_used'' (map_of d (ascii ''model_used''))
                    = Inr (model_used r)))"
proof -
  let ?w2 = "snd (RedisCache_get cache key (snd (time_time e w)))"
  have "hit_value (fst (RedisCache_get cache key (snd (time_time e w)))) = Some j"
    using assms(2,3) by (simp add: hit_value_Some)
  with assms(1)
  have eq: "analyze_sentiment e service cache t w = cache_hit e j (clock e (ticks w)) ?w2"
    by (rule analyze_sentiment_hit)
  have tk: "ticks ?w2 = Suc (ticks w)"
    by (simp add: RedisCache_get_snd time_time_simps)
  have "llm_calls (snd (analyze_sentiment e service cache t w)) = llm_calls w"
    by (simp add: eq cache_hit_snd RedisCache_get_snd time_time_simps)
  moreover have "cache_calls (snd (analyze_sentiment e service cache t w))
      = cache_calls w @ [CacheGet key]"
    by (simp add: eq cache_hit_snd RedisCache_get_snd time_time_simps)
  moreover have "kv (redis (snd (analyze_sentiment e service cache t w))) = kv (redis w)"
    by (simp add: eq cache_hit_snd RedisCache_get_snd time_time_simps)
  moreover have "fst (analyze_sentiment e service cache t w)
      = Inr \<lparr>text_field = t', sentiment = s, cached = True,
             processing_time = Some (clock e (Suc (ticks w)) - clock e (ticks w)),
             model_used = Some m, timestamp = clock e (Suc (Suc (ticks w)))\<rparr>"
    if "j = JObj [(ascii ''text'', JStr t'), (ascii ''sentiment'', model_dump s),
                  (ascii ''model_used'', JStr m)]"
      and "0 \<le> confidence s" and "confidence s \<le> 1" for t' s m
    using that
    by (simp add: eq cache_hit_JObj entry_not_repeated new_AnalysisResponse_entry tk)
  moreover have "cached r
      \<and> (\<exists>d. j = JObj d
            \<and> validate_sentiment (lax_float e) (map_of d (ascii ''sentiment'')) = Inr (sentiment r)
            \<and> validate_optional_str ''model_used'' (map_of d (ascii ''model_used''))
                = Inr (model_used r))"
    if "fst (analyze_sentiment e service cache t w) = Inr r" for r
  proof -
    from that obtain d where d: "j = JObj d"
      "new_AnalysisResponse (lax_float e) d True (clock e (ticks ?w2) - clock e (ticks w))
         (clock e (Suc (ticks ?w2))) = Inr r"
      using cache_hit_Inr [of e j "clock e (ticks w)" ?w2 r] by (auto simp: eq)
    from new_AnalysisResponse_Inr [OF d(2)] d(1) show ?thesis
      by auto
  qed
  ultimately show ?thesis
    by blast
qed

lemma after_lookup:
  "llm_calls (snd (RedisCache_get cache key (snd (time_time e w)))) = llm_calls w"
  "ticks (snd (RedisCache_get cache key (snd (time_time e w)))) = Suc (ticks w)"
  "cache_calls (snd (RedisCache_get cache key (snd (time_time e w))))
     = cache_calls w @ [CacheGet key]"
  "kv (redis (snd (RedisCache_get cache key (snd (time_time e w))))) = kv (redis w)"
  "fault (redis (snd (RedisCache_get cache key (snd (time_time e w))))) = fault (redis w)"
  "calls (redis (snd (RedisCache_get cache key (snd (time_time e w)))))
     = calls (redis w) @ (if cache_enabled cache then [GET key] else [])"
  "events (snd (RedisCache_get cache key (snd (time_time e w))))
     = events w @ [Clock (ticks w), Cache (CacheGet key)]"
  by (simp_all add: RedisCache_get_snd time_time_simps)

text \<open>
  Claim C3. When the lookup misses (it returns \<open>None\<close> or a value that is not true)
  and the analysis of the backend succeeds, the chain is invoked once, with the text;
  \<open>RedisCache.set\<close> is called once, with the derived key and the entry of the text,
  the fresh judgment and \<open>settings.ollama.model\<close> (with caching enabled this is the one
  \<open>SETEX\<close> sent to the server, under the default time to live); and the outcome has
  \<open>cached=False\<close>, the fresh judgment, the configured model identifier and, as
  processing time, the clock reading at assembly minus the reading taken at the start
  of the request. The request is this sequence of events and nothing else: the first
  reading of the clock (the start time), the lookup, the invocation of the chain, the
  write of the entry, the second reading of the clock (at assembly, after the write), and
  the reading for the timestamp. So the processing time is measured from a reading that
  precedes the lookup, the analysis and the write, to a reading that follows them.
\<close>

theorem analyze_sentiment_cache_miss:
  assumes "generate_cache_key t = Inr key"
    and "hit_value (fst (RedisCache_get cache key (snd (time_time e w)))) = None"
    and "fst (analyze_run (lax_float e) service (chain e (length (llm_calls w)) t)) = Inr s"
  shows "llm_calls (snd (analyze_sentiment e service cache t w)) = llm_calls w @ [t]
    \<and> cache_calls (snd (analyze_sentiment e service cache t w))
        = cache_calls w @ [CacheGet key,
            CacheSet key (JObj [(ascii ''text'', JStr t), (ascii ''sentiment'', model_dump s),
                                (ascii ''model_used'', JStr (settings_ollama_model e))])]
    \<and> calls (redis (snd (analyze_sentiment e service cache t w)))
        = calls (redis w) @
            (if cache_enabled cache
             then [GET key,
                   SETEX key (ttl cache)
                     (json_dumps (JObj [(ascii ''text'', JStr t), (ascii ''sentiment'', model_dump s),
                                        (ascii ''model_used'', JStr (settings_ollama_model e))]))]
             else [])
    \<and> fst (analyze_sentiment e service cache t w)
        = Inr \<lparr>text_field = t, sentiment = s, cached = False,
               processing_time = Some (clock e (Suc (ticks w)) - clock e (ticks w)),
               model_used = Some (settings_ollama_model e),
               timestamp = clock e (Suc (Suc (ticks w)))\<rparr>
    \<and> events (snd (analyze_sentiment e service cache t w))
        = events w @
            [Clock (ticks w), Cache (CacheGet key), Backend t,
             Cache (CacheSet key
               (JObj [(ascii ''text'', JStr t), (ascii ''sentiment'', model_dump s),
                      (ascii ''model_used'', JStr (settings_ollama_model e))])),
             Clock (Suc (ticks w)), Clock (Suc (Suc (ticks w)))]
    \<and> ticks (snd (analyze_sentiment e service cache t w)) = Suc (Suc (Suc (ticks w)))"
proof -
  define w2 where "w2 = snd (RedisCache_get cache key (snd (time_time e w)))"
  note w2 = after_lookup [of cache key e w, folded w2_def]
  have run: "fst (analyze_run (lax_float e) service (chain e (length (llm_calls w2)) t)) = Inr s"
    using assms(3) by (simp add: w2)
  have valid: "0 \<le> confidence s" "confidence s \<le> 1"
    using analyze_run_Inr_valid [OF assms(3)] by simp_all
  have eq: "analyze_sentiment e service cache t w
      = cache_miss e service cache t key (clock e (ticks w)) w2"
    unfolding w2_def using assms(1,2) by (rule analyze_sentiment_miss)
  show ?thesis
    by (simp add: eq cache_miss_ok [OF run] RedisCache_set_snd service_analyze_sentiment_snd
        w2 response_data_def new_AnalysisResponse_entry [OF valid] actual_ttl_def)
qed

text \<open>
  Claim C4. When the lookup misses and the analysis of the backend fails, the pipeline
  fails with that same failure, which is the timeout or the analysis failure with its
  details; \<open>RedisCache.set\<close> is not called, no \<open>SETEX\<close> is sent and the store is
  unchanged.
\<close>

theorem analyze_sentiment_backend_failure:
  assumes "generate_cache_key t = Inr key"
    and "hit_value (fst (RedisCache_get cache key (snd (time_time e w)))) = None"
    and "fst (analyze_run (lax_float e) service (chain e (length (llm_calls w)) t)) = Inl ex"
  shows "fst (analyze_sentiment e service cache t w) = Inl ex
    \<and> ((\<exists>m. ex = TimeoutError m) \<or> (\<exists>m ds. ex = SentimentAnalysisError m ds \<and> ds \<noteq> []))
    \<and> cache_calls (snd (analyze_sentiment e service cache t w)) = cache_calls w @ [CacheGet key]
    \<and> kv (redis (snd (analyze_sentiment e service cache t w))) = kv (redis w)
    \<and> calls (redis (snd (analyze_sentiment e service cache t w)))
        = calls (redis w) @ (if cache_enabled cache then [GET key] else [])
    \<and> llm_calls (snd (analyze_sentiment e service cache t w)) = llm_calls w @ [t]"
proof -
  define w2 where "w2 = snd (RedisCache_get cache key (snd (time_time e w)))"
  note w2 = after_lookup [of cache key e w, folded w2_def]
  have run: "fst (analyze_run (lax_float e) service (chain e (length (llm_calls w2)) t)) = Inl ex"
    using assms(3) by (simp add: w2)
  have eq: "analyze_sentiment e service cache t w
      = cache_miss e service cache t key (clock e (ticks w)) w2"
    unfolding w2_def using assms(1,2) by (rule analyze_sentiment_miss)
  have kinds: "(\<exists>m. ex = TimeoutError m) \<or> (\<exists>m ds. ex = SentimentAnalysisError m ds \<and> ds \<noteq> [])"
    using assms(3) by (rule analyze_run_kinds)
  show ?thesis
    using kinds
    by (simp add: eq cache_miss_fail [OF run] service_analyze_sentiment_snd w2)
qed


subsection \<open>Two calls in sequence\<close>

lemma RedisCache_get_fst_cong:
  assumes "kv (redis w') = kv (redis w)" and "fault (redis w') = fault (redis w)"
  shows "fst (RedisCache_get c k w') = fst (RedisCache_get c k w)"
  unfolding RedisCache_get_fst assms by (rule refl)

lemma lookup_after:
  assumes "kv (redis w') = kv (redis w)" and "fault (redis w') = fault (redis w)"
  shows "fst (RedisCache_get c k (snd (time_time e w'))) = fst (RedisCache_get c k (snd (time_time e w)))"
  by (rule RedisCache_get_fst_cong) (simp_all add: time_time_simps assms)

lemma lookup_stored:
  assumes "cache_enabled c" and "fault (redis w') = None"
    and "kv (redis w') k = Some (json_dumps j, n)"
  shows "fst (RedisCache_get c k (snd (time_time e w'))) = Some j"
  using assms
  by (simp add: RedisCache_get_fst time_time_simps json_dumps_def str_truthy_def json_loads_def)

lemma second_call_after_hit:
  assumes key: "generate_cache_key t = Inr key"
    and hit: "hit_value (fst (RedisCache_get cache key (snd (time_time e w)))) = Some j"
    and first: "fst (analyze_sentiment e service cache t w) = Inr r1"
  shows "cached r1 \<and> (\<exists>r2. fst (analyze_sentiment e service cache t
            (snd (analyze_sentiment e service cache t w))) = Inr r2
          \<and> sentiment r2 = sentiment r1 \<and> cached r2)"
proof -
  define w2 where "w2 = snd (RedisCache_get cache key (snd (time_time e w)))"
  note w2 = after_lookup [of cache key e w, folded w2_def]
  have eq: "analyze_sentiment e service cache t w = cache_hit e j (clock e (ticks w)) w2"
    unfolding w2_def using key hit by (rule analyze_sentiment_hit)
  from first obtain d where d: "j = JObj d" "\<not> repeated_keyword d"
    "new_AnalysisResponse (lax_float e) d True (clock e (ticks w2) - clock e (ticks w))
       (clock e (Suc (ticks w2))) = Inr r1"
    using cache_hit_Inr [of e j "clock e (ticks w)" w2 r1] by (auto simp: eq)
  have c1: "cached r1"
    using new_AnalysisResponse_Inr [OF d(3)] by simp
  define w' where "w' = snd (analyze_sentiment e service cache t w)"
  have w': "kv (redis w') = kv (redis w)" "fault (redis w') = fault (redis w)"
    by (simp_all add: w'_def eq cache_hit_snd w2)
  have hit': "hit_value (fst (RedisCache_get cache key (snd (time_time e w')))) = Some j"
    using hit by (simp add: lookup_after [OF w'])
  define w2' where "w2' = snd (RedisCache_get cache key (snd (time_time e w')))"
  have eq': "analyze_sentiment e service cache t w' = cache_hit e j (clock e (ticks w')) w2'"
    unfolding w2'_def using key hit' by (rule analyze_sentiment_hit)
  have "fst (analyze_sentiment e service cache t w')
      = Inr (r1\<lparr>cached := True,
                processing_time := Some (clock e (ticks w2') - clock e (ticks w')),
                timestamp := clock e (Suc (ticks w2'))\<rparr>)"
    by (simp add: eq' d(1) cache_hit_JObj d(2) new_AnalysisResponse_again [OF d(3)])
  then show ?thesis
    using c1 by (simp add: w'_def)
qed

lemma second_call_after_miss:
  assumes op: "cache_enabled cache" "fault (redis w) = None" "0 < ttl cache"
    and key: "generate_cache_key t = Inr key"
    and miss: "hit_value (fst (RedisCache_get cache key (snd (time_time e w)))) = None"
    and first: "fst (analyze_sentiment e service cache t w) = Inr r1"
  shows "\<not> cached r1 \<and> (\<exists>r2. fst (analyze_sentiment e service cache t
            (snd (analyze_sentiment e service cache t w))) = Inr r2
          \<and> sentiment r2 = sentiment r1 \<and> cached r2)"
proof -
  define w2 where "w2 = snd (RedisCache_get cache key (snd (time_time e w)))"
  note w2 = after_lookup [of cache key e w, folded w2_def]
  have eq: "analyze_sentiment e service cache t w
      = cache_miss e service cache t key (clock e (ticks w)) w2"
    unfolding w2_def using key miss by (rule analyze_sentiment_miss)
  obtain s where run: "fst (analyze_run (lax_float e) service (chain e (length (llm_calls w2)) t)) = Inr s"
  proof (cases "fst (analyze_run (lax_float e) service (chain e (length (llm_calls w2)) t))")
    case (Inl ex)
    from cache_miss_fail [OF this] first show ?thesis
      by (simp add: eq)
  next
    case (Inr s)
    with that show ?thesis .
  qed
  have valid: "0 \<le> confidence s" "confidence s \<le> 1"
    using analyze_run_Inr_valid [OF run] by simp_all
  let ?entry = "JObj (response_data e t s)"
  have r1: "r1 = \<lparr>text_field = t, sentiment = s, cached = False,
      processing_time = Some (clock e (ticks w2) - clock e (ticks w)),
      model_used = Some (settings_ollama_model e), timestamp = clock e (Suc (ticks w2))\<rparr>"
    using first
    by (simp add: eq cache_miss_ok [OF run] response_data_def new_AnalysisResponse_entry [OF valid])
  define w' where "w' = snd (analyze_sentiment e service cache t w)"
  have w': "fault (redis w') = None" "kv (redis w') key = Some (json_dumps ?entry, ttl cache)"
    using op
    by (simp_all add: w'_def eq cache_miss_ok [OF run] RedisCache_set_snd RedisCache_set_kv
        service_analyze_sentiment_snd w2 actual_ttl_def)
  have "fst (RedisCache_get cache key (snd (time_time e w'))) = Some ?entry"
    using op(1) w' by (rule lookup_stored)
  then have hit': "hit_value (fst (RedisCache_get cache key (snd (time_time e w')))) = Some ?entry"
    by (simp add: hit_value_def response_data_def)
  define w2' where "w2' = snd (RedisCache_get cache key (snd (time_time e w')))"
  have eq': "analyze_sentiment e service cache t w' = cache_hit e ?entry (clock e (ticks w')) w2'"
    unfolding w2'_def using key hit' by (rule analyze_sentiment_hit)
  have "fst (analyze_sentiment e service cache t w')
      = Inr \<lparr>text_field = t, sentiment = s, cached = True,
             processing_time = Some (clock e (ticks w2') - clock e (ticks w')),
             model_used = Some (settings_ollama_model e), timestamp = clock e (Suc (ticks w2'))\<rparr>"
    by (simp add: eq' cache_hit_JObj response_data_def entry_not_repeated
        new_AnalysisResponse_entry [OF valid])
  then show ?thesis
    by (simp add: r1 w'_def)
qed

text \<open>
  Claim C6, amended. With an operational cache (enabled, the server answers, a positive
  default time to live) and no expiry between the calls: when the first of two calls in
  sequence with the same text succeeds, the second succeeds with the same judgment and
  \<open>cached=True\<close>; the first has \<open>cached=False\<close> exactly when its lookup missed.
\<close>

theorem analyze_sentiment_twice:
  assumes "cache_enabled cache" and "fault (redis w) = None" and "0 < ttl cache"
    and "generate_cache_key t = Inr key"
    and "fst (analyze_sentiment e service cache t w) = Inr r1"
  shows "(\<exists>r2. fst (analyze_sentiment e service cache t
            (snd (analyze_sentiment e service cache t w))) = Inr r2
          \<and> sentiment r2 = sentiment r1 \<and> cached r2)
    \<and> (\<not> cached r1 \<longleftrightarrow>
         hit_value (fst (RedisCache_get cache key (snd (time_time e w)))) = None)"
proof (cases "hit_value (fst (RedisCache_get cache key (snd (time_time e w))))")
  case None
  from second_call_after_miss [OF assms(1-4) None assms(5)] None show ?thesis
    by simp
next
  case (Some j)
  from second_call_after_hit [OF assms(4) Some assms(5)] Some show ?thesis
    by simp
qed

subsection \<open>The pipeline on the data of the tests\<close>

lemma key_love: "generate_cache_key love = Inr ''5de35b58d7f5de8d786e8b90bacac816''"
  by (simp add: love_def generate_cache_key_love)

lemma lookup_world0:
  "fst (RedisCache_get cache_on ''5de35b58d7f5de8d786e8b90bacac816'' (snd (time_time e world0))) = None"
  by (simp add: RedisCache_get_fst time_time_simps world0_def cache_on_def)

lemma lookup_world_seeded:
  "fst (RedisCache_get cache_on ''5de35b58d7f5de8d786e8b90bacac816'' (snd (time_time e world_seeded)))
     = Some entry_llama2"
  by (simp add: RedisCache_get_fst time_time_simps world_seeded_def world0_def cache_on_def
      str_truthy_def json_loads_def)

lemma run_env0:
  "fst (analyze_run (lax_float env0) service30 (chain env0 n t))
     = Inr \<lparr>label = POSITIVE, confidence = 0.95, explanation = Some (ascii ''Great product!'')\<rparr>"
  by (simp add: env0_def analyze_run_in_time service30_def model_validate_eval)

lemma run_env_slow:
  "fst (analyze_run (lax_float env_slow) service30 (chain env_slow n t))
     = Inl (TimeoutError ''Sentiment analysis request timed out'')"
  by (simp add: env_slow_def env0_def analyze_run_timeout service30_def)

lemma sentiment_cached_valid: "0 \<le> confidence sentiment_cached" "confidence sentiment_cached \<le> 1"
  by (simp_all add: sentiment_cached_def)


lemma times_env0:
  "clock env0 (Suc (ticks world0)) - clock env0 (ticks world0) = 1"
  "clock env0 (Suc (Suc (ticks world0))) = 2"
  "clock env0 (Suc (ticks world_seeded)) - clock env0 (ticks world_seeded) = 1"
  "clock env0 (Suc (Suc (ticks world_seeded))) = 2"
  "clock env_slow = clock env0" "lax_float env_slow = lax_float env0"
  "settings_ollama_model env0 = ascii ''llama3''"
  by (simp_all add: env0_def env_slow_def world0_def world_seeded_def)

lemma hit_result:
  assumes "generate_cache_key t = Inr key"
    and "fst (RedisCache_get cache key (snd (time_time e w)))
           = Some (JObj [(ascii ''text'', JStr t'), (ascii ''sentiment'', model_dump s),
                         (ascii ''model_used'', JStr m)])"
    and "0 \<le> confidence s" and "confidence s \<le> 1"
  shows "fst (analyze_sentiment e service cache t w)
     = Inr \<lparr>text_field = t', sentiment = s, cached = True,
            processing_time = Some (clock e (Suc (ticks w)) - clock e (ticks w)),
            model_used = Some m, timestamp = clock e (Suc (Suc (ticks w)))\<rparr>"
proof -
  let ?j = "JObj [(ascii ''text'', JStr t'), (ascii ''sentiment'', model_dump s),
                  (ascii ''model_used'', JStr m)]"
  define w2 where "w2 = snd (RedisCache_get cache key (snd (time_time e w)))"
  note w2 = after_lookup [of cache key e w, folded w2_def]
  have "hit_value (fst (RedisCache_get cache key (snd (time_time e w)))) = Some ?j"
    by (simp add: assms(2) hit_value_def)
  with assms(1) have "analyze_sentiment e service cache t w = cache_hit e ?j (clock e (ticks w)) w2"
    unfolding w2_def by (rule analyze_sentiment_hit)
  then show ?thesis
    by (simp add: cache_hit_JObj entry_not_repeated new_AnalysisResponse_entry [OF assms(3,4)] w2)
qed

lemma miss_result:
  assumes "generate_cache_key t = Inr key"
    and "hit_value (fst (RedisCache_get cache key (snd (time_time e w)))) = None"
    and "fst (analyze_run (lax_float e) service (chain e (length (llm_calls w)) t)) = Inr s"
  shows "fst (analyze_sentiment e service cache t w)
     = Inr \<lparr>text_field = t, sentiment = s, cached = False,
            processing_time = Some (clock e (Suc (ticks w)) - clock e (ticks w)),
            model_used = Some (settings_ollama_model e),
            timestamp = clock e (Suc (Suc (ticks w)))\<rparr>"
proof -
  define w2 where "w2 = snd (RedisCache_get cache key (snd (time_time e w)))"
  note w2 = after_lookup [of cache key e w, folded w2_def]
  have run: "fst (analyze_run (lax_float e) service (chain e (length (llm_calls w2)) t)) = Inr s"
    using assms(3) by (simp add: w2)
  have valid: "0 \<le> confidence s" "confidence s \<le> 1"
    using analyze_run_Inr_valid [OF assms(3)] by simp_all
  have "analyze_sentiment e service cache t w
      = cache_miss e service cache t key (clock e (ticks w)) w2"
    unfolding w2_def using assms(1,2) by (rule analyze_sentiment_miss)
  then show ?thesis
    by (simp add: cache_miss_ok [OF run] w2 response_data_def new_AnalysisResponse_entry [OF valid])
qed

lemma first_call_world0:
  "fst (analyze_sentiment env0 service30 cache_on love world0)
     = Inr \<lparr>text_field = love,
            sentiment = \<lparr>label = POSITIVE, confidence = 0.95,
                         explanation = Some (ascii ''Great product!'')\<rparr>,
            cached = False, processing_time = Some 1,
            model_used = Some (ascii ''llama3''), timestamp = 2\<rparr>"
  using miss_result [OF key_love _ run_env0, of cache_on world0]
  by (simp add: lookup_world0 hit_value_def times_env0)

lemma first_call_world_seeded:
  "fst (analyze_sentiment env0 service30 cache_on love world_seeded)
     = Inr \<lparr>text_field = love, sentiment = sentiment_cached, cached = True,
            processing_time = Some 1, model_used = Some (ascii ''llama2''), timestamp = 2\<rparr>"
  using hit_result [OF key_love lookup_world_seeded [unfolded entry_llama2_def]
      sentiment_cached_valid, of env0 service30]
  by (simp add: times_env0)

text \<open>
  The test of the cache hit: the seeded entry of model \<open>llama2\<close>.
\<close>

theorem analyze_sentiment_cache_hit_witness:
  "fst (analyze_sentiment env0 service30 cache_on love world_seeded)
     = Inr \<lparr>text_field = love, sentiment = sentiment_cached, cached = True,
            processing_time = Some 1, model_used = Some (ascii ''llama2''), timestamp = 2\<rparr>
   \<and> llm_calls (snd (analyze_sentiment env0 service30 cache_on love world_seeded)) = []
   \<and> cache_calls (snd (analyze_sentiment env0 service30 cache_on love world_seeded))
       = [CacheGet ''5de35b58d7f5de8d786e8b90bacac816'']"
proof -
  have tr: "truthy entry_llama2"
    by (simp add: entry_llama2_def)
  note h = analyze_sentiment_cache_hit [OF key_love lookup_world_seeded tr, of env0 service30]
  from h have calls: "llm_calls (snd (analyze_sentiment env0 service30 cache_on love world_seeded))
      = llm_calls world_seeded"
    "cache_calls (snd (analyze_sentiment env0 service30 cache_on love world_seeded))
      = cache_calls world_seeded @ [CacheGet ''5de35b58d7f5de8d786e8b90bacac816'']"
    by blast+
  from h have "\<forall>t' s m.
      entry_llama2 = JObj [(ascii ''text'', JStr t'), (ascii ''sentiment'', model_dump s),
                           (ascii ''model_used'', JStr m)]
      \<and> 0 \<le> confidence s \<and> confidence s \<le> 1 \<longrightarrow>
      fst (analyze_sentiment env0 service30 cache_on love world_seeded)
        = Inr \<lparr>text_field = t', sentiment = s, cached = True,
               processing_time
                 = Some (clock env0 (Suc (ticks world_seeded)) - clock env0 (ticks world_seeded)),
               model_used = Some m, timestamp = clock env0 (Suc (Suc (ticks world_seeded)))\<rparr>"
    by blast
  from this [rule_format, of love sentiment_cached "ascii ''llama2''"]
  have "fst (analyze_sentiment env0 service30 cache_on love world_seeded)
      = Inr \<lparr>text_field = love, sentiment = sentiment_cached, cached = True,
             processing_time = Some 1, model_used = Some (ascii ''llama2''), timestamp = 2\<rparr>"
    by (simp add: entry_llama2_def sentiment_cached_valid times_env0)
  with calls show ?thesis
    by (simp add: world_seeded_def world0_def)
qed

text \<open>
  The test of the cache miss: the empty store and a backend that answers. The clock is
  read first, then the store is looked up, the chain invoked and the entry written, and
  the clock is read again.
\<close>

theorem analyze_sentiment_cache_miss_witness:
  "fst (analyze_sentiment env0 service30 cache_on love world0)
     = Inr \<lparr>text_field = love,
            sentiment = \<lparr>label = POSITIVE, confidence = 0.95,
                         explanation = Some (ascii ''Great product!'')\<rparr>,
            cached = False, processing_time = Some 1,
            model_used = Some (ascii ''llama3''), timestamp = 2\<rparr>
   \<and> llm_calls (snd (analyze_sentiment env0 service30 cache_on love world0)) = [love]
   \<and> cache_calls (snd (analyze_sentiment env0 service30 cache_on love world0))
       = [CacheGet ''5de35b58d7f5de8d786e8b90bacac816'',
          CacheSet ''5de35b58d7f5de8d786e8b90bacac816''
            (JObj [(ascii ''text'', JStr love),
                   (ascii ''sentiment'',
                    model_dump \<lparr>label = POSITIVE, confidence = 0.95,
                                explanation = Some (ascii ''Great product!'')\<rparr>),
                   (ascii ''model_used'', JStr (ascii ''llama3''))])]
   \<and> events (snd (analyze_sentiment env0 service30 cache_on love world0))
       = [Clock 0, Cache (CacheGet ''5de35b58d7f5de8d786e8b90bacac816''), Backend love,
          Cache (CacheSet ''5de35b58d7f5de8d786e8b90bacac816''
            (JObj [(ascii ''text'', JStr love),
                   (ascii ''sentiment'',
                    model_dump \<lparr>label = POSITIVE, confidence = 0.95,
                                explanation = Some (ascii ''Great product!'')\<rparr>),
                   (ascii ''model_used'', JStr (ascii ''llama3''))])),
          Clock 1, Clock 2]"
proof -
  have miss: "hit_value (fst (RedisCache_get cache_on ''5de35b58d7f5de8d786e8b90bacac816''
      (snd (time_time env0 world0)))) = None"
    by (simp add: lookup_world0 hit_value_def)
  from analyze_sentiment_cache_miss [OF key_love miss run_env0]
  show ?thesis
    by (simp add: times_env0) (simp add: world0_def)
qed

text \<open>
  The test of the timeout: the empty store and a backend that takes 31 seconds.
\<close>

theorem analyze_sentiment_backend_failure_witness:
  "fst (analyze_sentiment env_slow service30 cache_on love world0)
     = Inl (TimeoutError ''Sentiment analysis request timed out'')
   \<and> cache_calls (snd (analyze_sentiment env_slow service30 cache_on love world0))
       = [CacheGet ''5de35b58d7f5de8d786e8b90bacac816'']
   \<and> kv (redis (snd (analyze_sentiment env_slow service30 cache_on love world0))) = Map.empty
   \<and> calls (redis (snd (analyze_sentiment env_slow service30 cache_on love world0)))
       = [GET ''5de35b58d7f5de8d786e8b90bacac816'']"
proof -
  have miss: "hit_value (fst (RedisCache_get cache_on ''5de35b58d7f5de8d786e8b90bacac816''
      (snd (time_time env_slow world0)))) = None"
    by (simp add: lookup_world0 hit_value_def)
  from analyze_sentiment_backend_failure [OF key_love miss run_env_slow]
  show ?thesis
    by (simp add: world0_def cache_on_def)
qed

text \<open>
  Two calls on the empty store.
\<close>

theorem analyze_sentiment_twice_witness:
  "fst (analyze_sentiment env0 service30 cache_on love world0)
     = Inr \<lparr>text_field = love,
            sentiment = \<lparr>label = POSITIVE, confidence = 0.95,
                         explanation = Some (ascii ''Great product!'')\<rparr>,
            cached = False, processing_time = Some 1,
            model_used = Some (ascii ''llama3''), timestamp = 2\<rparr>
   \<and> (\<exists>r2. fst (analyze_sentiment env0 service30 cache_on love
              (snd (analyze_sentiment env0 service30 cache_on love world0))) = Inr r2
         \<and> sentiment r2 = \<lparr>label = POSITIVE, confidence = 0.95,
                            explanation = Some (ascii ''Great product!'')\<rparr>
         \<and> cached r2)"
proof -
  have op: "cache_enabled cache_on" "fault (redis world0) = None" "0 < ttl cache_on"
    by (simp_all add: cache_on_def world0_def)
  from analyze_sentiment_twice [OF op key_love first_call_world0] first_call_world0
  show ?thesis
    by simp
qed

text \<open>
  Claim C6 as stated fails when the text is cached before the first call: on the seeded
  store the cache is operational and the first call succeeds, with \<open>cached=True\<close>.
\<close>

theorem analyze_sentiment_twice_seeded:
  "cache_enabled cache_on \<and> fault (redis world_seeded) = None \<and> 0 < ttl cache_on
   \<and> fst (analyze_sentiment env0 service30 cache_on love world_seeded)
       = Inr \<lparr>text_field = love, sentiment = sentiment_cached, cached = True,
              processing_time = Some 1, model_used = Some (ascii ''llama2''), timestamp = 2\<rparr>"
  using first_call_world_seeded by (simp add: cache_on_def world_seeded_def world0_def)

end
